theory Spec2Isabelle
  imports Main "HOL-Library.AList" "HOL-Library.Multiset"
begin

section \<open>Strings\<close>

text \<open>
  A JavaScript string is modelled as a \<^typ>\<open>string\<close>: one \<^typ>\<open>char\<close> stands for one
  code unit. The functions below only look at ASCII classes of a code unit.
\<close>

definition is_lower :: "char \<Rightarrow> bool" where
  "is_lower c = (97 \<le> (of_char c :: nat) \<and> (of_char c :: nat) \<le> 122)"

definition is_upper :: "char \<Rightarrow> bool" where
  "is_upper c = (65 \<le> (of_char c :: nat) \<and> (of_char c :: nat) \<le> 90)"

definition is_digit :: "char \<Rightarrow> bool" where
  "is_digit c = (48 \<le> (of_char c :: nat) \<and> (of_char c :: nat) \<le> 57)"

text \<open>The character class \<^verbatim>\<open>[a-zA-Z0-9-_]\<close> of the source's regular expressions.\<close>

definition allowed_char :: "char \<Rightarrow> bool" where
  "allowed_char c = (is_lower c \<or> is_upper c \<or> is_digit c \<or> c = CHR ''-'' \<or> c = CHR ''_'')"

text \<open>\<^verbatim>\<open>s.replace(/[^a-zA-Z0-9-_]/g, "_")\<close>\<close>

definition sanitize :: "string \<Rightarrow> string" where
  "sanitize s = map (\<lambda>c. if allowed_char c then c else CHR ''_'') s"

text \<open>White space as \<^verbatim>\<open>String.prototype.trim\<close> and \<^verbatim>\<open>parseInt\<close> see it
  (tab, line feed, vertical tab, form feed, carriage return, space, no-break space).\<close>

definition is_space :: "char \<Rightarrow> bool" where
  "is_space c = ((of_char c :: nat) \<in> {9, 10, 11, 12, 13, 32, 160})"

definition trim :: "string \<Rightarrow> string" where
  "trim s = rev (dropWhile is_space (rev (dropWhile is_space s)))"

text \<open>Decimal rendering of a non-negative number, as in \<^verbatim>\<open>`${Date.now()}`\<close>.\<close>

definition digit_char :: "nat \<Rightarrow> char" where
  "digit_char d = ''0123456789'' ! d"

fun decimal :: "nat \<Rightarrow> string" where
  "decimal n = (if n < 10 then [digit_char n] else decimal (n div 10) @ [digit_char (n mod 10)])"

declare decimal.simps [simp del]

text \<open>
  \<^verbatim>\<open>join(dir, file)\<close> of the path library, for POSIX paths: the arguments that are not
  empty are joined by \<^verbatim>\<open>/\<close> and the result is normalised. Normalising splits the path at
  the separators, drops the empty segments and the segments \<^verbatim>\<open>.\<close>, and lets a segment \<^verbatim>\<open>..\<close>
  cancel the segment before it; a \<^verbatim>\<open>..\<close> with nothing before it is dropped in an absolute
  path and kept in a relative one. A trailing separator is kept, and the empty path is
  \<^verbatim>\<open>.\<close>.
\<close>

fun split_path :: "string \<Rightarrow> string list" where
  "split_path [] = [[]]"
| "split_path (c # cs) =
    (if c = CHR ''/'' then [] # split_path cs
     else (case split_path cs of s # ss \<Rightarrow> (c # s) # ss | [] \<Rightarrow> [[c]]))"

text \<open>The segments seen so far are kept in \<open>acc\<close>, last one first.\<close>

fun resolve_dots :: "bool \<Rightarrow> string list \<Rightarrow> string list \<Rightarrow> string list" where
  "resolve_dots allowAboveRoot [] acc = rev acc"
| "resolve_dots allowAboveRoot (s # ss) acc =
    (if s = [] \<or> s = ''.'' then resolve_dots allowAboveRoot ss acc
     else if s = ''..''
     then (case acc of
             [] \<Rightarrow> resolve_dots allowAboveRoot ss (if allowAboveRoot then [''..''] else [])
           | a # acc' \<Rightarrow>
               if a = ''..''
               then resolve_dots allowAboveRoot ss (if allowAboveRoot then ''..'' # acc else acc)
               else resolve_dots allowAboveRoot ss acc')
     else resolve_dots allowAboveRoot ss (s # acc))"

fun join_segments :: "string list \<Rightarrow> string" where
  "join_segments [] = []"
| "join_segments [s] = s"
| "join_segments (s # t # ss) = s @ ''/'' @ join_segments (t # ss)"

definition normalize_path :: "string \<Rightarrow> string" where
  "normalize_path path =
    (if path = [] then ''.''
     else
      (let isAbsolute = (hd path = CHR ''/'');
           trailingSeparator = (last path = CHR ''/'');
           p = join_segments (resolve_dots (\<not> isAbsolute) (split_path path) []);
           p1 = (if p = [] \<and> \<not> isAbsolute then ''.'' else p);
           p2 = (if p1 \<noteq> [] \<and> trailingSeparator then p1 @ ''/'' else p1)
       in if isAbsolute then CHR ''/'' # p2 else p2))"

definition join :: "string \<Rightarrow> string \<Rightarrow> string" where
  "join d f =
    (let joined = join_segments (filter (\<lambda>p. p \<noteq> []) [d, f])
     in if joined = [] then ''.'' else normalize_path joined)"


text \<open>\<^verbatim>\<open>s.substring(a, b)\<close> for \<open>a \<le> b\<close>, and \<^verbatim>\<open>s.endsWith(suffix)\<close>.\<close>

definition substring :: "nat \<Rightarrow> nat \<Rightarrow> string \<Rightarrow> string" where
  "substring a b s = take (b - a) (drop a s)"

definition endsWith :: "string \<Rightarrow> string \<Rightarrow> bool" where
  "endsWith suffix s = (length suffix \<le> length s \<and> drop (length s - length suffix) s = suffix)"

text \<open>
  The fixed-width regular expressions of the source: a pattern is a list of atoms, each
  matching one code unit: a digit (\<^verbatim>\<open>\d\<close>), a literal, or a literal under the \<^verbatim>\<open>i\<close> flag.
\<close>

datatype atom = Digit | Lit char | LitCI char

text \<open>Two code units that the \<^verbatim>\<open>i\<close> flag identifies: equal, or an ASCII capital and its
  small letter.\<close>

definition same_letter :: "char \<Rightarrow> char \<Rightarrow> bool" where
  "same_letter a b =
    (a = b \<or> (is_upper a \<and> (of_char a :: nat) + 32 = of_char b)
           \<or> (is_upper b \<and> (of_char b :: nat) + 32 = of_char a))"

fun atom_matches :: "atom \<Rightarrow> char \<Rightarrow> bool" where
  "atom_matches Digit c = is_digit c"
| "atom_matches (Lit x) c = (c = x)"
| "atom_matches (LitCI x) c = same_letter c x"

definition matches :: "atom list \<Rightarrow> string \<Rightarrow> bool" where
  "matches pat s = (length s = length pat \<and> list_all2 atom_matches pat s)"

text \<open>\<^verbatim>\<open>\d{4}-\d{2}-\d{2}T\d{2}-\d{2}-\d{2}-\d{3}Z\<close>, with the letters under a flag \<open>lit\<close>.\<close>

definition timestamp_pattern :: "(char \<Rightarrow> atom) \<Rightarrow> atom list" where
  "timestamp_pattern lit =
    [Digit, Digit, Digit, Digit, lit CHR ''-'', Digit, Digit, lit CHR ''-'', Digit, Digit,
     lit CHR ''T'', Digit, Digit, lit CHR ''-'', Digit, Digit, lit CHR ''-'', Digit, Digit,
     lit CHR ''-'', Digit, Digit, Digit, lit CHR ''Z'']"

text \<open>\<^verbatim>\<open>parseInt(input)\<close> with no radix: leading white space, a sign, a \<^verbatim>\<open>0x\<close> prefix, then
  the longest run of digits; \<open>None\<close> is \<^verbatim>\<open>NaN\<close>. The result is the mathematical integer:
  the callers only compare it with array lengths and index with it, where the rounding
  to a double makes no difference.\<close>

definition hex_val :: "char \<Rightarrow> nat option" where
  "hex_val c =
    (if is_digit c then Some ((of_char c :: nat) - 48)
     else if 97 \<le> (of_char c :: nat) \<and> (of_char c :: nat) \<le> 102 then Some ((of_char c :: nat) - 87)
     else if 65 \<le> (of_char c :: nat) \<and> (of_char c :: nat) \<le> 70 then Some ((of_char c :: nat) - 55)
     else None)"

definition radix_val :: "nat \<Rightarrow> char \<Rightarrow> nat option" where
  "radix_val r c = (case hex_val c of Some v \<Rightarrow> if v < r then Some v else None | None \<Rightarrow> None)"

definition is_radix_digit :: "nat \<Rightarrow> char \<Rightarrow> bool" where
  "is_radix_digit r c = (radix_val r c \<noteq> None)"

definition strip_sign :: "string \<Rightarrow> bool \<times> string" where
  "strip_sign s =
    (case s of
       [] \<Rightarrow> (False, s)
     | c # r \<Rightarrow> if c = CHR ''-'' then (True, r)
                else if c = CHR ''+'' then (False, r) else (False, s))"

definition strip_radix :: "string \<Rightarrow> nat \<times> string" where
  "strip_radix s =
    (case s of
       a # b # r \<Rightarrow> if a = CHR ''0'' \<and> (b = CHR ''x'' \<or> b = CHR ''X'') then (16, r) else (10, s)
     | _ \<Rightarrow> (10, s))"

definition digits_value :: "nat \<Rightarrow> string \<Rightarrow> nat" where
  "digits_value radix ds = foldl (\<lambda>a c. a * radix + the (radix_val radix c)) 0 ds"

definition parseInt :: "string \<Rightarrow> int option" where
  "parseInt str =
    (let (neg, s2) = strip_sign (dropWhile is_space str);
         (radix, s3) = strip_radix s2;
         ds = takeWhile (is_radix_digit radix) s3
     in if ds = [] then None
        else Some ((if neg then - 1 else 1) * int (digits_value radix ds)))"

text \<open>\<^verbatim>\<open>basename(path, suffix)\<close> of the path library, for a path that names a file.\<close>

definition basename :: "string \<Rightarrow> string \<Rightarrow> string" where
  "basename path suffix =
    (let nm = rev (takeWhile (\<lambda>c. c \<noteq> CHR ''/'') (rev path))
     in if length suffix < length nm \<and> endsWith suffix nm
        then take (length nm - length suffix) nm else nm)"

text \<open>\<^verbatim>\<open>.replace(/^cinnamon-profile-/i, "")\<close> and
  \<^verbatim>\<open>.replace(/-export-\d{4}-\d{2}-\d{2}T\d{2}-\d{2}-\d{2}-\d{3}Z$/i, "")\<close>\<close>

definition strip_profile_prefix :: "string \<Rightarrow> string" where
  "strip_profile_prefix s =
    (let pat = map LitCI ''cinnamon-profile-''
     in if length pat \<le> length s \<and> matches pat (take (length pat) s)
        then drop (length pat) s else s)"

definition strip_export_suffix :: "string \<Rightarrow> string" where
  "strip_export_suffix s =
    (let pat = map LitCI ''-export-'' @ timestamp_pattern LitCI
     in if length pat \<le> length s \<and> matches pat (drop (length s - length pat) s)
        then take (length s - length pat) s else s)"

section \<open>Data model\<close>

record profile =
  name :: string
  active :: bool
  lastModified :: string
  zipFile :: string

text \<open>
  The text of \<^verbatim>\<open>profiles.json\<close>. \<open>Serialized ps\<close> is \<^verbatim>\<open>JSON.stringify(ps, null, 2)\<close>
  for an array of profile objects; \<open>NonArrayJson\<close> is text that parses to something
  that is not an array; \<open>Malformed\<close> is text on which \<^verbatim>\<open>JSON.parse\<close> throws.
\<close>

datatype filedata = Serialized "profile list" | NonArrayJson string | Malformed string

record ComponentOptions =
  userThemes :: bool
  systemThemes :: bool
  userIcons :: bool
  userIconsAlt :: bool
  systemIcons :: bool
  userFonts :: bool
  userFontsAlt :: bool
  systemFonts :: bool
  dconf :: bool

text \<open>\<^verbatim>\<open>CommandOptions\<close>: every field is optional (\<open>None\<close> is \<^verbatim>\<open>undefined\<close>).\<close>

record CommandOptions =
  opt_userThemes :: "bool option"
  opt_addSystemThemes :: "bool option"
  opt_userIconsLocal :: "bool option"
  opt_userIconsHome :: "bool option"
  opt_addSystemIcons :: "bool option"
  opt_userFontsLocal :: "bool option"
  opt_userFontsHome :: "bool option"
  opt_addSystemFonts :: "bool option"
  opt_dconf :: "bool option"
  opt_noBackup :: "bool option"

text \<open>The live source locations (\<^verbatim>\<open>CINNAMON_PATHS\<close>, \<^verbatim>\<open>THEME_PATHS\<close>, \<^verbatim>\<open>ICON_PATHS\<close>,
  \<^verbatim>\<open>FONT_PATHS\<close>).\<close>

datatype loc =
  Share | Config
  | UserThemes | SystemThemes
  | UserIcons | UserIconsAlt | SystemIcons
  | UserFonts | UserFontsAlt | SystemFonts

text \<open>
  A directory is the list of its top-level entries, each a name and an opaque subtree
  (a file, a symbolic link or a whole directory tree) of type \<open>'e\<close>.
\<close>

type_synonym 'e dir = "(string \<times> 'e) list"

text \<open>
  The contents of a scratch directory, and of an archive: named sub-directories
  (\<^verbatim>\<open>share\<close>, \<^verbatim>\<open>config\<close>, \<^verbatim>\<open>user-themes\<close>, ...) and top-level text files (the dconf dump,
  the export metadata).
\<close>

record 'e tree =
  tdirs :: "(string \<times> 'e dir) list"
  tfiles :: "(string \<times> string) list"

datatype place = Live loc | Scratch string

text \<open>The outcome of one \<^verbatim>\<open>copy(src, dest, {overwrite: true})\<close> of the file-system library:
  the destination entry written, or an exception and whatever is left at the destination.\<close>

datatype 'e copy_result = Copied 'e | CopyFailed "'e option"

datatype question =
  ConfirmSwitch | ConfirmReapply | ConfirmContinueWithoutBackup | ConfirmOverwrite

datatype msg =
  ParseError | BackingUpCorrupted | QuarantineFailed
  | DuplicateName string | ProfileNotFound string | CreationFailed
  | ArchiveDeleteFailed string | ProfileArchiveNotFound string
  | SourceMissing place | CopyEntryFailed place string
  | ReadDirFailed | EmptySource | ZipFailed string | UnzipFailed string
  | DconfDumpFailed | DconfResetFailed | DconfLoadFailed | DconfReadFailed
  | ArchiveFileNotFound string | PreRestoreBackupFailed
  | NoShareInArchive | NoConfigInArchive
  | InvalidSelection nat | SwitchFailed string | ProceedingDespiteBackupFailure
  | RestoreFailed | ImportFileNotFound string | ImportArchiveFailed

text \<open>What a run leaves behind, in order: \<^verbatim>\<open>console.error\<close> and \<^verbatim>\<open>console.warn\<close> lines,
  questions put to the user with their answers, and the calls that capture or wipe.\<close>

datatype event =
  Error msg
  | Warning msg
  | Asked question bool
  | BackupAttempt string bool
  | EmptyDir loc

text \<open>Everything outside the program that a run depends on.\<close>

record 'e env =
  root :: string
  std_copy :: "place \<Rightarrow> place \<Rightarrow> string \<Rightarrow> 'e \<Rightarrow> 'e option \<Rightarrow> 'e copy_result"
  zip_tool :: "'e tree \<Rightarrow> string \<Rightarrow> 'e tree option \<Rightarrow> 'e tree option"
  unzip_tool :: "string \<Rightarrow> 'e tree \<Rightarrow> 'e tree option"
  dconf_dump_ok :: bool
  dconf_reset_ok :: bool
  dconf_file_readable :: bool
  dconf_load :: "string \<Rightarrow> string \<Rightarrow> string option"
  confirm :: "question \<Rightarrow> bool"
  prompt_input :: "string option"
  now_iso :: string
  now_ms :: nat
  uuid :: string
  remove_throws :: "string \<Rightarrow> bool"
  quarantine_copy_ok :: bool
  db_read_throws :: bool
  db_write_throws :: bool
  date_parse :: "string \<Rightarrow> int option"
  metadata_name :: "string \<Rightarrow> string option"
  localeCompare :: "string \<Rightarrow> string \<Rightarrow> int"

record 'e world =
  live :: "loc \<Rightarrow> 'e dir option"
  dconf_ns :: string
  archives :: "string \<Rightarrow> 'e tree option"
  db :: "filedata option"
  quarantine :: "string \<Rightarrow> filedata option"
  manual_listing :: "(string \<times> bool) list option"
  auto_listing :: "(string \<times> bool) list option"
  trace :: "event list"

datatype status = Returned | Exited nat

definition emit :: "event list \<Rightarrow> 'e world \<Rightarrow> 'e world" where
  "emit es w = w\<lparr>trace := trace w @ es\<rparr>"

definition PROFILES_DB_FILE :: "'e env \<Rightarrow> string" where
  "PROFILES_DB_FILE env = join (root env) ''profiles.json''"

definition AUTO_BACKUP_DIR :: "'e env \<Rightarrow> string" where
  "AUTO_BACKUP_DIR env = join (root env) ''auto-backup''"

definition BACKUP_DIR :: "'e env \<Rightarrow> string" where
  "BACKUP_DIR env = join (root env) ''backup''"

definition DCONF_SETTINGS_FILE :: string where
  "DCONF_SETTINGS_FILE = ''org.cinnamon.dconf.ini''"


section \<open>Reading and writing the registry\<close>

text \<open>\<^verbatim>\<open>JSON.parse\<close> followed by \<^verbatim>\<open>Array.isArray\<close>: \<open>None\<close> is the \<^verbatim>\<open>catch\<close> branch.\<close>

fun parse_profiles :: "filedata \<Rightarrow> profile list option" where
  "parse_profiles (Serialized ps) = Some ps"
| "parse_profiles (NonArrayJson _) = None"
| "parse_profiles (Malformed _) = None"

definition readProfiles :: "'e env \<Rightarrow> 'e world \<Rightarrow> profile list \<times> 'e world" where
  "readProfiles env w =
    (case db w of
       None \<Rightarrow> ([], w)
     | Some content \<Rightarrow>
        (case parse_profiles content of
           Some profiles \<Rightarrow> (profiles, w)
         | None \<Rightarrow>
            (let w1 = emit [Error ParseError, Warning BackingUpCorrupted] w;
                 w2 = (if quarantine_copy_ok env
                       then w1\<lparr>quarantine := (quarantine w1)
                              (PROFILES_DB_FILE env @ ''.corrupted-'' @ decimal (now_ms env) \<mapsto> content)\<rparr>
                       else emit [Error QuarantineFailed] w1)
             in ([], w2\<lparr>db := Some (Serialized [])\<rparr>))))"

text \<open>
  \<open>readProfiles\<close> above is the function on the runs in which the registry file can
  be read and written, and the commands below are modelled on those runs. The function
  itself guards neither \<^verbatim>\<open>Deno.readTextFile\<close> nor the \<^verbatim>\<open>Deno.writeTextFile\<close> of its
  \<^verbatim>\<open>catch\<close> block: \<open>readProfiles_throwing\<close> is \<open>readProfiles\<close> with these two calls able to
  throw, the exception going to the caller (\<open>Inl\<close>). A write that throws leaves the
  file as it was.
\<close>

datatype exn = ReadTextFileError | WriteTextFileError

definition readProfiles_throwing ::
  "'e env \<Rightarrow> 'e world \<Rightarrow> (exn + profile list) \<times> 'e world" where
  "readProfiles_throwing env w =
    (case db w of
       None \<Rightarrow> (Inr [], w)
     | Some content \<Rightarrow>
        if db_read_throws env then (Inl ReadTextFileError, w)
        else
         (case parse_profiles content of
            Some profiles \<Rightarrow> (Inr profiles, w)
          | None \<Rightarrow>
             (let w1 = emit [Error ParseError, Warning BackingUpCorrupted] w;
                  w2 = (if quarantine_copy_ok env
                        then w1\<lparr>quarantine := (quarantine w1)
                               (PROFILES_DB_FILE env @ ''.corrupted-'' @ decimal (now_ms env) \<mapsto> content)\<rparr>
                        else emit [Error QuarantineFailed] w1)
              in if db_write_throws env then (Inl WriteTextFileError, w2)
                 else (Inr [], w2\<lparr>db := Some (Serialized [])\<rparr>))))"

definition writeProfiles :: "profile list \<Rightarrow> 'e world \<Rightarrow> 'e world" where
  "writeProfiles profiles w = w\<lparr>db := Some (Serialized profiles)\<rparr>"


text \<open>The profiles the registry document holds: what \<open>readProfiles\<close> returns.\<close>

definition registry :: "'e world \<Rightarrow> profile list" where
  "registry w = (case db w of None \<Rightarrow> [] | Some content \<Rightarrow>
                  (case parse_profiles content of None \<Rightarrow> [] | Some ps \<Rightarrow> ps))"


section \<open>Deleting a profile\<close>

text \<open>\<^verbatim>\<open>Array.prototype.findIndex\<close>; \<open>None\<close> is \<^verbatim>\<open>-1\<close>.\<close>

fun findIndex :: "('a \<Rightarrow> bool) \<Rightarrow> 'a list \<Rightarrow> nat option" where
  "findIndex P [] = None"
| "findIndex P (x # xs) = (if P x then Some 0 else map_option Suc (findIndex P xs))"

text \<open>\<^verbatim>\<open>profiles.splice(i, 1)\<close>\<close>

definition splice1 :: "nat \<Rightarrow> 'a list \<Rightarrow> 'a list" where
  "splice1 i xs = take i xs @ drop (Suc i) xs"

definition deleteProfile :: "'e env \<Rightarrow> string \<Rightarrow> 'e world \<Rightarrow> status \<times> 'e world" where
  "deleteProfile env nm w0 =
    (let (profiles, w1) = readProfiles env w0 in
     case findIndex (\<lambda>p. name p = nm) profiles of
       None \<Rightarrow> (Exited 1, emit [Error (ProfileNotFound nm)] w1)
     | Some profileIndex \<Rightarrow>
        (let profileToDelete = profiles ! profileIndex;
             w2 = (if archives w1 (zipFile profileToDelete) \<noteq> None
                   then (if remove_throws env (zipFile profileToDelete)
                         then emit [Error (ArchiveDeleteFailed (zipFile profileToDelete))] w1
                         else w1\<lparr>archives := (archives w1)(zipFile profileToDelete := None)\<rparr>)
                   else emit [Warning (ProfileArchiveNotFound (zipFile profileToDelete))] w1)
         in (Returned, writeProfiles (splice1 profileIndex profiles) w2)))"



section \<open>Copying, packing and unpacking\<close>

text \<open>\<^verbatim>\<open>options.x !== false\<close> and \<^verbatim>\<open>options.x === true\<close>, as every command computes them.\<close>

definition componentOptions :: "CommandOptions \<Rightarrow> ComponentOptions" where
  "componentOptions options =
    \<lparr>userThemes = (opt_userThemes options \<noteq> Some False),
     systemThemes = (opt_addSystemThemes options = Some True),
     userIcons = (opt_userIconsLocal options \<noteq> Some False),
     userIconsAlt = (opt_userIconsHome options \<noteq> Some False),
     systemIcons = (opt_addSystemIcons options = Some True),
     userFonts = (opt_userFontsLocal options \<noteq> Some False),
     userFontsAlt = (opt_userFontsHome options \<noteq> Some False),
     systemFonts = (opt_addSystemFonts options = Some True),
     dconf = (opt_dconf options \<noteq> Some False)\<rparr>"

text \<open>The default of \<^verbatim>\<open>createTimestampedBackup\<close> and \<^verbatim>\<open>restoreSettingsFromZip\<close> when no
  options are passed.\<close>

definition all_components :: ComponentOptions where
  "all_components =
    \<lparr>userThemes = True, systemThemes = True, userIcons = True, userIconsAlt = True,
     systemIcons = True, userFonts = True, userFontsAlt = True, systemFonts = True,
     dconf = True\<rparr>"

text \<open>
  The loop of \<^verbatim>\<open>copyDirectoryContents\<close> over the entries of the source directory: each
  entry is copied over the entry of the same name at the destination; an exception is
  caught, logged as a warning, and the loop goes on.
\<close>

fun copy_loop ::
  "'e env \<Rightarrow> place \<Rightarrow> place \<Rightarrow> 'e dir \<Rightarrow> 'e dir \<times> event list \<Rightarrow> 'e dir \<times> event list" where
  "copy_loop env src dst [] acc = acc"
| "copy_loop env src dst ((n, e) # es) (d, lg) =
    (case std_copy env src dst n e (map_of d n) of
       Copied e' \<Rightarrow> copy_loop env src dst es (AList.update n e' d, lg)
     | CopyFailed left \<Rightarrow>
         copy_loop env src dst es
           ((case left of None \<Rightarrow> AList.delete n d | Some e' \<Rightarrow> AList.update n e' d),
            lg @ [Warning (CopyEntryFailed src n)]))"

text \<open>
  \<^verbatim>\<open>copyDirectoryContents(sourceDir, destinationDir)\<close>, on the two directories themselves
  (\<open>None\<close>: the directory does not exist). The result is the destination directory
  afterwards, and what was logged.
\<close>

definition copyDirectoryContents ::
  "'e env \<Rightarrow> place \<Rightarrow> place \<Rightarrow> 'e dir option \<Rightarrow> 'e dir option \<Rightarrow> 'e dir option \<times> event list" where
  "copyDirectoryContents env src dst sourceDir destinationDir =
    (case sourceDir of
       None \<Rightarrow> (destinationDir, [Warning (SourceMissing src)])
     | Some entries \<Rightarrow>
        (let (d, lg) = copy_loop env src dst entries
                         (case destinationDir of None \<Rightarrow> [] | Some d0 \<Rightarrow> d0, [])
         in (Some d, lg)))"

text \<open>
  \<^verbatim>\<open>zipDirectoryContents(sourceDir, zipFilePath)\<close>. The source directory is given by its
  contents (\<open>None\<close>: it cannot be read). The \<^verbatim>\<open>zip\<close> tool is the environment's: from
  the directory, the target path and the archive already there it gives the archive
  written, or \<open>None\<close> for a non-zero exit.
\<close>

definition zipDirectoryContents ::
  "'e env \<Rightarrow> 'e tree option \<Rightarrow> string \<Rightarrow> 'e world \<Rightarrow> bool \<times> 'e world" where
  "zipDirectoryContents env sourceDir zipFilePath w =
    (case sourceDir of
       None \<Rightarrow> (False, emit [Error ReadDirFailed] w)
     | Some t \<Rightarrow>
        (let isEmpty = (tdirs t = [] \<and> tfiles t = []);
             w1 = (if isEmpty then emit [Warning EmptySource] w else w)
         in case zip_tool env t zipFilePath (archives w1 zipFilePath) of
              None \<Rightarrow> (False, emit [Error (ZipFailed zipFilePath)] w1)
            | Some a \<Rightarrow> (True, w1\<lparr>archives := (archives w1)(zipFilePath \<mapsto> a)\<rparr>)))"

text \<open>
  \<^verbatim>\<open>unzipArchive(zipFilePath, destinationDir)\<close> into a fresh scratch directory: the
  extracted contents, or \<open>None\<close> when \<^verbatim>\<open>unzip\<close> exits non-zero (as it does when there is
  no such file).
\<close>

definition unzipArchive :: "'e env \<Rightarrow> string \<Rightarrow> 'e world \<Rightarrow> 'e tree option \<times> 'e world" where
  "unzipArchive env zipFilePath w =
    (case archives w zipFilePath of
       None \<Rightarrow> (None, emit [Error (UnzipFailed zipFilePath)] w)
     | Some a \<Rightarrow>
        (case unzip_tool env zipFilePath a of
           None \<Rightarrow> (None, emit [Error (UnzipFailed zipFilePath)] w)
         | Some t \<Rightarrow> (Some t, w)))"


section \<open>Capture\<close>

text \<open>
  Staging one source location into the sub-directory \<open>sub\<close> of the scratch directory.
  \<open>stageCore\<close> is the call for the two core directories; \<open>stageLocation\<close> is the block
  repeated for each theme, icon and font location (the option, then \<^verbatim>\<open>exists\<close>, then
  the copy).
\<close>

definition stageCore ::
  "'e env \<Rightarrow> loc \<Rightarrow> string \<Rightarrow> 'e world \<Rightarrow> 'e tree \<times> event list \<Rightarrow> 'e tree \<times> event list" where
  "stageCore env l sub w acc =
    (let (t, lg) = acc;
         (d, lg') = copyDirectoryContents env (Live l) (Scratch sub) (live w l) (map_of (tdirs t) sub)
     in (case d of None \<Rightarrow> t | Some d' \<Rightarrow> t\<lparr>tdirs := AList.update sub d' (tdirs t)\<rparr>, lg @ lg'))"

definition stageLocation ::
  "'e env \<Rightarrow> bool \<Rightarrow> loc \<Rightarrow> string \<Rightarrow> 'e world \<Rightarrow> 'e tree \<times> event list \<Rightarrow> 'e tree \<times> event list" where
  "stageLocation env enabled l sub w acc =
    (if enabled then (if live w l \<noteq> None then stageCore env l sub w acc else acc) else acc)"

definition copyThemeDirectories ::
  "'e env \<Rightarrow> ComponentOptions \<Rightarrow> 'e world \<Rightarrow> 'e tree \<times> event list \<Rightarrow> 'e tree \<times> event list" where
  "copyThemeDirectories env options w acc =
    stageLocation env (systemThemes options) SystemThemes ''system-themes'' w
      (stageLocation env (userThemes options) UserThemes ''user-themes'' w acc)"

definition copyIconDirectories ::
  "'e env \<Rightarrow> ComponentOptions \<Rightarrow> 'e world \<Rightarrow> 'e tree \<times> event list \<Rightarrow> 'e tree \<times> event list" where
  "copyIconDirectories env options w acc =
    stageLocation env (systemIcons options) SystemIcons ''system-icons'' w
      (stageLocation env (userIconsAlt options) UserIconsAlt ''user-icons-alt'' w
        (stageLocation env (userIcons options) UserIcons ''user-icons'' w acc))"

definition copyFontDirectories ::
  "'e env \<Rightarrow> ComponentOptions \<Rightarrow> 'e world \<Rightarrow> 'e tree \<times> event list \<Rightarrow> 'e tree \<times> event list" where
  "copyFontDirectories env options w acc =
    stageLocation env (systemFonts options) SystemFonts ''system-fonts'' w
      (stageLocation env (userFontsAlt options) UserFontsAlt ''user-fonts-home'' w
        (stageLocation env (userFonts options) UserFonts ''user-fonts'' w acc))"

definition copyThemeIconAndFontDirectories ::
  "'e env \<Rightarrow> ComponentOptions \<Rightarrow> 'e world \<Rightarrow> 'e tree \<times> event list \<Rightarrow> 'e tree \<times> event list" where
  "copyThemeIconAndFontDirectories env options w acc =
    copyFontDirectories env options w
      (copyIconDirectories env options w (copyThemeDirectories env options w acc))"

text \<open>The dconf dump into the scratch directory: written only when \<^verbatim>\<open>dconf dump\<close> succeeds
  with a non-empty output.\<close>

definition stageDconf ::
  "'e env \<Rightarrow> ComponentOptions \<Rightarrow> 'e world \<Rightarrow> 'e tree \<times> event list \<Rightarrow> 'e tree \<times> event list" where
  "stageDconf env options w acc =
    (let (t, lg) = acc in
     if dconf options
     then (if dconf_dump_ok env \<and> dconf_ns w \<noteq> []
           then (t\<lparr>tfiles := AList.update DCONF_SETTINGS_FILE (dconf_ns w) (tfiles t)\<rparr>, lg)
           else (t, lg @ [Warning DconfDumpFailed]))
     else (t, lg))"

text \<open>
  The staging block that \<^verbatim>\<open>createProfile\<close>, \<^verbatim>\<open>createTimestampedBackup\<close> and
  \<^verbatim>\<open>updateActiveProfile\<close> each run inside \<^verbatim>\<open>withTempDir\<close>: the scratch directory starts
  empty, is private to the call, and is removed afterwards.
\<close>

definition stage :: "'e env \<Rightarrow> ComponentOptions \<Rightarrow> 'e world \<Rightarrow> 'e tree \<times> event list" where
  "stage env options w =
    stageDconf env options w
      (copyThemeIconAndFontDirectories env options w
        (stageCore env Config ''config'' w
          (stageCore env Share ''share'' w (\<lparr>tdirs = [], tfiles = []\<rparr>, []))))"

text \<open>\<^verbatim>\<open>new Date().toISOString().replace(/[:.]/g, "-")\<close>\<close>

definition file_timestamp :: "string \<Rightarrow> string" where
  "file_timestamp s = map (\<lambda>c. if c = CHR '':'' \<or> c = CHR ''.'' then CHR ''-'' else c) s"

definition createTimestampedBackup ::
  "'e env \<Rightarrow> string \<Rightarrow> string \<Rightarrow> ComponentOptions option \<Rightarrow> 'e world \<Rightarrow> string option \<times> 'e world" where
  "createTimestampedBackup env targetDir prefix options w =
    (let componentOptions = (case options of None \<Rightarrow> all_components | Some co \<Rightarrow> co);
         backupFile = join targetDir (prefix @ ''-'' @ file_timestamp (now_iso env) @ ''.zip'');
         (t, lg) = stage env componentOptions w;
         (success, w1) = zipDirectoryContents env (Some t) backupFile (emit lg w)
     in (if success then Some backupFile else None, emit [BackupAttempt prefix success] w1))"


section \<open>Apply\<close>

text \<open>\<^verbatim>\<open>if (await exists(dir)) await emptyDir(dir)\<close> and \<^verbatim>\<open>Deno.mkdir(dir, {recursive: true})\<close>\<close>

definition emptyDirIfExists :: "loc \<Rightarrow> 'e world \<Rightarrow> 'e world" where
  "emptyDirIfExists l w =
    (if live w l \<noteq> None then emit [EmptyDir l] (w\<lparr>live := (live w)(l \<mapsto> [])\<rparr>) else w)"

definition mkdir :: "loc \<Rightarrow> 'e world \<Rightarrow> 'e world" where
  "mkdir l w = (if live w l = None then w\<lparr>live := (live w)(l \<mapsto> [])\<rparr> else w)"

text \<open>Copying one extracted sub-directory back over its live location.\<close>

definition restoreInto :: "'e env \<Rightarrow> loc \<Rightarrow> string \<Rightarrow> 'e dir \<Rightarrow> 'e world \<Rightarrow> 'e world" where
  "restoreInto env l sub d w =
    (let (d', lg) = copyDirectoryContents env (Scratch sub) (Live l) (Some d) (live w l)
     in emit lg (w\<lparr>live := (live w)(l := d')\<rparr>))"

definition restoreCore :: "'e env \<Rightarrow> loc \<Rightarrow> string \<Rightarrow> msg \<Rightarrow> 'e tree \<Rightarrow> 'e world \<Rightarrow> 'e world" where
  "restoreCore env l sub missing t w =
    (case map_of (tdirs t) sub of
       Some d \<Rightarrow> restoreInto env l sub d w
     | None \<Rightarrow> emit [Warning missing] w)"

text \<open>The block repeated for each theme, icon and font location: the option, then
  \<^verbatim>\<open>exists\<close> on the extracted sub-directory, then \<^verbatim>\<open>mkdir\<close> and the copy.\<close>

definition restoreLocation ::
  "'e env \<Rightarrow> bool \<Rightarrow> loc \<Rightarrow> string \<Rightarrow> 'e tree \<Rightarrow> 'e world \<Rightarrow> 'e world" where
  "restoreLocation env enabled l sub t w =
    (if enabled
     then (case map_of (tdirs t) sub of
             Some d \<Rightarrow> restoreInto env l sub d (mkdir l w)
           | None \<Rightarrow> w)
     else w)"

definition restoreThemeDirectories ::
  "'e env \<Rightarrow> 'e tree \<Rightarrow> ComponentOptions \<Rightarrow> 'e world \<Rightarrow> 'e world" where
  "restoreThemeDirectories env t options w =
    restoreLocation env (systemThemes options) SystemThemes ''system-themes'' t
      (restoreLocation env (userThemes options) UserThemes ''user-themes'' t w)"

definition restoreIconDirectories ::
  "'e env \<Rightarrow> 'e tree \<Rightarrow> ComponentOptions \<Rightarrow> 'e world \<Rightarrow> 'e world" where
  "restoreIconDirectories env t options w =
    restoreLocation env (systemIcons options) SystemIcons ''system-icons'' t
      (restoreLocation env (userIconsAlt options) UserIconsAlt ''user-icons-alt'' t
        (restoreLocation env (userIcons options) UserIcons ''user-icons'' t w))"

definition restoreFontDirectories ::
  "'e env \<Rightarrow> 'e tree \<Rightarrow> ComponentOptions \<Rightarrow> 'e world \<Rightarrow> 'e world" where
  "restoreFontDirectories env t options w =
    restoreLocation env (systemFonts options) SystemFonts ''system-fonts'' t
      (restoreLocation env (userFontsAlt options) UserFontsAlt ''user-fonts-home'' t
        (restoreLocation env (userFonts options) UserFonts ''user-fonts'' t w))"

definition restoreThemeIconAndFontDirectories ::
  "'e env \<Rightarrow> 'e tree \<Rightarrow> ComponentOptions \<Rightarrow> 'e world \<Rightarrow> 'e world" where
  "restoreThemeIconAndFontDirectories env t options w =
    restoreFontDirectories env t options
      (restoreIconDirectories env t options (restoreThemeDirectories env t options w))"

text \<open>The dconf part of the restore: reset, then read the extracted dump (inside
  \<^verbatim>\<open>try\<close>) and load it unless it is blank.\<close>

definition restoreDconf :: "'e env \<Rightarrow> 'e tree \<Rightarrow> ComponentOptions \<Rightarrow> 'e world \<Rightarrow> 'e world" where
  "restoreDconf env t options w =
    (if dconf options
     then (case map_of (tfiles t) DCONF_SETTINGS_FILE of
             Some content \<Rightarrow>
               (let w1 = (if dconf_reset_ok env then w\<lparr>dconf_ns := []\<rparr>
                          else emit [Warning DconfResetFailed] w)
                in if \<not> dconf_file_readable env then emit [Warning DconfReadFailed] w1
                   else if trim content = [] then w1
                   else (case dconf_load env (dconf_ns w1) content of
                           Some s \<Rightarrow> w1\<lparr>dconf_ns := s\<rparr>
                         | None \<Rightarrow> emit [Warning DconfLoadFailed] w1))
           | None \<Rightarrow> w)
     else w)"

text \<open>The automatic backup inside \<^verbatim>\<open>restoreSettingsFromZip\<close>: taken after the extraction,
  and a failure is only a warning.\<close>

definition preRestoreBackup :: "'e env \<Rightarrow> ComponentOptions \<Rightarrow> 'e world \<Rightarrow> 'e world" where
  "preRestoreBackup env co w =
    (let (autoBackupFile, w1) =
           createTimestampedBackup env (AUTO_BACKUP_DIR env) ''pre-restore'' (Some co) w
     in if autoBackupFile \<noteq> None then w1 else emit [Warning PreRestoreBackupFailed] w1)"

definition restoreSettingsFromZip ::
  "'e env \<Rightarrow> string \<Rightarrow> bool \<Rightarrow> ComponentOptions option \<Rightarrow> bool \<Rightarrow> 'e world \<Rightarrow> bool \<times> 'e world" where
  "restoreSettingsFromZip env zipFilePath isProfileSwitch options skipBackup w =
    (let componentOptions = (case options of None \<Rightarrow> all_components | Some co \<Rightarrow> co) in
     if archives w zipFilePath = None
     then (False, emit [Error (ArchiveFileNotFound zipFilePath)] w)
     else
      (case unzipArchive env zipFilePath w of
         (None, w1) \<Rightarrow> (False, w1)
       | (Some t, w1) \<Rightarrow>
          (let w2 = (if \<not> isProfileSwitch \<and> \<not> skipBackup
                     then preRestoreBackup env componentOptions w1 else w1);
               w3 = mkdir Config (mkdir Share (emptyDirIfExists Config (emptyDirIfExists Share w2)));
               w4 = restoreCore env Config ''config'' NoConfigInArchive t
                      (restoreCore env Share ''share'' NoShareInArchive t w3);
               w5 = restoreThemeIconAndFontDirectories env t componentOptions w4
           in (True, restoreDconf env t componentOptions w5))))"




section \<open>Capture followed by apply\<close>

text \<open>The scratch sub-directory of each live location, and the option that selects it
  (the two core directories are always selected), as the capture and apply blocks pair
  them.\<close>

fun sub_of :: "loc \<Rightarrow> string" where
  "sub_of Share = ''share''"
| "sub_of Config = ''config''"
| "sub_of UserThemes = ''user-themes''"
| "sub_of SystemThemes = ''system-themes''"
| "sub_of UserIcons = ''user-icons''"
| "sub_of UserIconsAlt = ''user-icons-alt''"
| "sub_of SystemIcons = ''system-icons''"
| "sub_of UserFonts = ''user-fonts''"
| "sub_of UserFontsAlt = ''user-fonts-home''"
| "sub_of SystemFonts = ''system-fonts''"

fun selected :: "ComponentOptions \<Rightarrow> loc \<Rightarrow> bool" where
  "selected co Share = True"
| "selected co Config = True"
| "selected co UserThemes = userThemes co"
| "selected co SystemThemes = systemThemes co"
| "selected co UserIcons = userIcons co"
| "selected co UserIconsAlt = userIconsAlt co"
| "selected co SystemIcons = systemIcons co"
| "selected co UserFonts = userFonts co"
| "selected co UserFontsAlt = userFontsAlt co"
| "selected co SystemFonts = systemFonts co"

text \<open>The archive path \<open>createTimestampedBackup\<close> writes to.\<close>

definition backup_file :: "'e env \<Rightarrow> string \<Rightarrow> string \<Rightarrow> string" where
  "backup_file env dir pfx = join dir (pfx @ ''-'' @ file_timestamp (now_iso env) @ ''.zip'')"

text \<open>A capture with \<open>createTimestampedBackup\<close>, then an apply of the archive it wrote,
  with the same component selection.\<close>

definition capture_then_apply ::
  "'e env \<Rightarrow> string \<Rightarrow> string \<Rightarrow> ComponentOptions \<Rightarrow> bool \<Rightarrow> bool \<Rightarrow> 'e world \<Rightarrow> bool \<times> 'e world" where
  "capture_then_apply env targetDir prefix co isProfileSwitch skipBackup w =
    (let (backupFile, w1) = createTimestampedBackup env targetDir prefix (Some co) w
     in case backupFile of
          None \<Rightarrow> (False, w1)
        | Some path \<Rightarrow> restoreSettingsFromZip env path isProfileSwitch (Some co) skipBackup w1)"

text \<open>
  What a capture followed by an apply needs from the environment, for one component
  selection and one starting state \<open>w\<close>. \<open>captures_exactly\<close>: every entry of an existing
  live directory of a selected location is copied exactly into the scratch directory.
  \<open>packs_faithfully\<close>: \<^verbatim>\<open>zip\<close> succeeds on the staged tree and \<^verbatim>\<open>unzip\<close> of the archive it
  wrote gives that tree back. \<open>restores_exactly\<close>: every such entry is copied exactly
  back to its live location, over what is there in the state \<open>w2\<close> in which the apply
  runs (\<open>dest_dir\<close>: nothing in a core directory, which the apply has just emptied;
  elsewhere the entry of that name, if there is one). \<open>dconf_restores\<close>: the dump
  succeeds and is not blank, and loading it after the reset gives it back.
\<close>

definition dest_dir :: "'e world \<Rightarrow> loc \<Rightarrow> 'e dir" where
  "dest_dir w l =
    (if l = Share \<or> l = Config then [] else (case live w l of None \<Rightarrow> [] | Some d \<Rightarrow> d))"

definition captures_exactly :: "'e env \<Rightarrow> ComponentOptions \<Rightarrow> 'e world \<Rightarrow> bool" where
  "captures_exactly env co w =
    (\<forall>l es n e. selected co l \<and> live w l = Some es \<and> (n, e) \<in> set es \<longrightarrow>
       std_copy env (Live l) (Scratch (sub_of l)) n e None = Copied e)"

definition restores_exactly ::
  "'e env \<Rightarrow> ComponentOptions \<Rightarrow> 'e world \<Rightarrow> 'e world \<Rightarrow> bool" where
  "restores_exactly env co w w2 =
    (\<forall>l es n e. selected co l \<and> live w l = Some es \<and> (n, e) \<in> set es \<longrightarrow>
       std_copy env (Scratch (sub_of l)) (Live l) n e (map_of (dest_dir w2 l) n) = Copied e)"

definition packs_faithfully :: "'e env \<Rightarrow> 'e tree \<Rightarrow> string \<Rightarrow> 'e tree option \<Rightarrow> bool" where
  "packs_faithfully env t path old =
    (\<exists>a. zip_tool env t path old = Some a \<and> unzip_tool env path a = Some t)"

definition dconf_restores :: "'e env \<Rightarrow> 'e world \<Rightarrow> 'e world \<Rightarrow> bool" where
  "dconf_restores env w w2 =
    (dconf_dump_ok env \<and> dconf_file_readable env \<and> trim (dconf_ns w) \<noteq> [] \<and>
     dconf_load env (if dconf_reset_ok env then [] else dconf_ns w2) (dconf_ns w)
       = Some (dconf_ns w))"

text \<open>Entry names are unique within a directory.\<close>

definition well_formed :: "'e world \<Rightarrow> bool" where
  "well_formed w = (\<forall>l es. live w l = Some es \<longrightarrow> distinct (map fst es))"


section \<open>Commands on the registry\<close>

definition createProfile :: "'e env \<Rightarrow> string \<Rightarrow> CommandOptions \<Rightarrow> 'e world \<Rightarrow> status \<times> 'e world" where
  "createProfile env nm options w0 =
    (let (profiles, w1) = readProfiles env w0 in
     if list_ex (\<lambda>p. name p = nm) profiles
     then (Exited 1, emit [Error (DuplicateName nm)] w1)
     else
      (let (t, lg) = stage env (componentOptions options) w1;
           newZip = join (root env) (nm @ ''-'' @ uuid env @ ''.zip'');
           (zipped, w2) = zipDirectoryContents env (Some t) newZip (emit lg w1)
       in if \<not> zipped then (Exited 1, emit [Error CreationFailed] w2)
          else
           (let (profiles', w3) = readProfiles env w2
            in (Returned,
                writeProfiles
                  (map (\<lambda>p. p\<lparr>active := False\<rparr>) profiles' @
                   [\<lparr>name = nm, active = True, lastModified = now_iso env, zipFile = newZip\<rparr>])
                  w3))))"

text \<open>The entry \<open>createProfile\<close> appends.\<close>

definition new_profile :: "'e env \<Rightarrow> string \<Rightarrow> profile" where
  "new_profile env nm =
    \<lparr>name = nm, active = True, lastModified = now_iso env,
     zipFile = join (root env) (nm @ ''-'' @ uuid env @ ''.zip'')\<rparr>"

text \<open>A sequence of \<^verbatim>\<open>create\<close> invocations, each in its own environment; an invocation
  that exits leaves the world to the next one.\<close>

fun run_creates :: "('e env \<times> string \<times> CommandOptions) list \<Rightarrow> 'e world \<Rightarrow> 'e world" where
  "run_creates [] w = w"
| "run_creates ((env, nm, options) # cs) w = run_creates cs (snd (createProfile env nm options w))"

text \<open>\<^verbatim>\<open>profileToActivate.lastModified = ...\<close>: the object \<^verbatim>\<open>find\<close> returned is the first
  one of that name in the array.\<close>

fun touch_first :: "string \<Rightarrow> string \<Rightarrow> profile list \<Rightarrow> profile list" where
  "touch_first nm t [] = []"
| "touch_first nm t (p # ps) =
    (if name p = nm then p\<lparr>lastModified := t\<rparr> # ps else p # touch_first nm t ps)"

text \<open>The backup step of \<^verbatim>\<open>switchProfile\<close>: whether the command exits here, the backup
  file, and the world afterwards.\<close>

definition switchBackup ::
  "'e env \<Rightarrow> string \<Rightarrow> CommandOptions \<Rightarrow> ComponentOptions \<Rightarrow> 'e world \<Rightarrow> bool \<times> string option \<times> 'e world" where
  "switchBackup env nm options co w =
    (if opt_noBackup options \<noteq> Some True
     then
      (let (autoBackupFile, w1) =
             createTimestampedBackup env (AUTO_BACKUP_DIR env) (''pre-switch-to-'' @ sanitize nm) (Some co) w
       in if autoBackupFile \<noteq> None then (False, autoBackupFile, w1)
          else
           (let proceed = confirm env ConfirmContinueWithoutBackup;
                w2 = emit [Asked ConfirmContinueWithoutBackup proceed] w1
            in if \<not> proceed then (True, None, w2)
               else (False, None, emit [Warning ProceedingDespiteBackupFailure] w2)))
     else (False, None, w))"

definition switchProfile :: "'e env \<Rightarrow> string \<Rightarrow> CommandOptions \<Rightarrow> 'e world \<Rightarrow> status \<times> 'e world" where
  "switchProfile env nm options w0 =
    (let (profiles, w1) = readProfiles env w0 in
     case find (\<lambda>p. name p = nm) profiles of
       None \<Rightarrow> (Exited 1, emit [Error (ProfileNotFound nm)] w1)
     | Some profileToActivate \<Rightarrow>
        (let q = (if active profileToActivate then ConfirmReapply else ConfirmSwitch);
             proceed = confirm env q;
             w2 = emit [Asked q proceed] w1
         in if \<not> proceed then (Exited 0, w2)
            else
             (let co = componentOptions options;
                  (aborted, autoBackupFile, w3) = switchBackup env nm options co w2
              in if aborted then (Exited 0, w3)
                 else
                  (let (success, w4) =
                         restoreSettingsFromZip env (zipFile profileToActivate) True (Some co) True w3
                   in if success
                      then (Returned,
                            writeProfiles
                              (touch_first nm (now_iso env)
                                 (map (\<lambda>p. p\<lparr>active := (name p = nm)\<rparr>) profiles))
                              w4)
                      else (Exited 1, emit [Error (SwitchFailed nm)] w4)))))"


section \<open>Selecting and restoring a backup\<close>

record backup_entry =
  filename :: string
  date :: "int option"
  fullPath :: string
  kind :: string

text \<open>The date of a backup file name: the regular expression
  \<^verbatim>\<open>(\d{4}-\d{2}-\d{2}T\d{2}-\d{2}-\d{2}-\d{3}Z)\.zip$\<close>, the ISO string rebuilt from the
  match, and \<^verbatim>\<open>new Date\<close> (the environment's; \<open>None\<close> is an invalid date).\<close>

definition backup_date :: "'e env \<Rightarrow> string \<Rightarrow> int option" where
  "backup_date env nm =
    (let pat = timestamp_pattern Lit @ map Lit ''.zip''
     in if length pat \<le> length nm \<and> matches pat (drop (length nm - length pat) nm)
        then (let datePart = take 24 (drop (length nm - length pat) nm)
              in date_parse env
                   (substring 0 13 datePart @ '':'' @ substring 14 16 datePart @ '':'' @
                    substring 17 19 datePart @ ''.'' @ substring 20 23 datePart @ ''Z''))
        else None)"

text \<open>One of the two loops over a backup directory (\<^verbatim>\<open>Deno.readDir\<close> gives each entry's
  name and whether it is a file).\<close>

definition scan_backups :: "'e env \<Rightarrow> string \<Rightarrow> string \<Rightarrow> (string \<times> bool) list \<Rightarrow> backup_entry list" where
  "scan_backups env dir ty entries =
    map (\<lambda>(n, isFile). \<lparr>filename = n, date = backup_date env n, fullPath = join dir n, kind = ty\<rparr>)
      (filter (\<lambda>(n, isFile). isFile \<and> endsWith ''.zip'' n) entries)"

text \<open>The comparator passed to \<^verbatim>\<open>filesWithDates.sort\<close>.\<close>

definition backup_compare :: "'e env \<Rightarrow> backup_entry \<Rightarrow> backup_entry \<Rightarrow> int" where
  "backup_compare env a b =
    (case (date a, date b) of
       (None, None) \<Rightarrow> localeCompare env (filename a) (filename b)
     | (None, Some tb) \<Rightarrow> 1
     | (Some ta, None) \<Rightarrow> - 1
     | (Some ta, Some tb) \<Rightarrow> tb - ta)"

text \<open>The order of a newest-first listing: \<open>a\<close> may stand before \<open>b\<close> when \<open>a\<close> is
  dated and not older than \<open>b\<close>, or \<open>b\<close> is undated.\<close>

definition newest_first :: "backup_entry \<Rightarrow> backup_entry \<Rightarrow> bool" where
  "newest_first a b =
    (case date a of
       None \<Rightarrow> date b = None
     | Some ta \<Rightarrow> (case date b of None \<Rightarrow> True | Some tb \<Rightarrow> tb \<le> ta))"

text \<open>\<^verbatim>\<open>Array.prototype.sort\<close> is stable; it is modelled by the stable insertion sort.\<close>

fun insert_by :: "('a \<Rightarrow> 'a \<Rightarrow> int) \<Rightarrow> 'a \<Rightarrow> 'a list \<Rightarrow> 'a list" where
  "insert_by cmp x [] = [x]"
| "insert_by cmp x (y # ys) = (if cmp x y \<le> 0 then x # y # ys else y # insert_by cmp x ys)"

definition sort_by :: "('a \<Rightarrow> 'a \<Rightarrow> int) \<Rightarrow> 'a list \<Rightarrow> 'a list" where
  "sort_by cmp xs = foldr (insert_by cmp) xs []"

text \<open>The listing \<^verbatim>\<open>selectBackupFile\<close> shows: both directories scanned, then sorted.\<close>

definition backup_listing :: "'e env \<Rightarrow> 'e world \<Rightarrow> backup_entry list" where
  "backup_listing env w =
    sort_by (backup_compare env)
      ((case manual_listing w of None \<Rightarrow> [] | Some es \<Rightarrow> scan_backups env (BACKUP_DIR env) ''Manual'' es) @
       (case auto_listing w of None \<Rightarrow> [] | Some es \<Rightarrow> scan_backups env (AUTO_BACKUP_DIR env) ''Auto'' es))"

text \<open>\<^verbatim>\<open>selectBackupFile\<close>; \<open>prompt_input\<close> is what \<^verbatim>\<open>prompt\<close> returns.\<close>

definition selectBackupFile :: "'e env \<Rightarrow> 'e world \<Rightarrow> string option \<times> 'e world" where
  "selectBackupFile env w =
    (if manual_listing w = None \<and> auto_listing w = None then (None, w)
     else
      (let filesWithDates = backup_listing env w in
       if filesWithDates = [] then (None, w)
       else
        (case prompt_input env of
           None \<Rightarrow> (None, w)
         | Some input \<Rightarrow>
            (case parseInt input of
               None \<Rightarrow> (None, emit [Error (InvalidSelection (length filesWithDates))] w)
             | Some selection \<Rightarrow>
                if selection < 0 \<or> selection > int (length filesWithDates)
                then (None, emit [Error (InvalidSelection (length filesWithDates))] w)
                else if selection = 0 then (None, w)
                else (Some (fullPath (filesWithDates ! nat (selection - 1))), w)))))"

definition restoreBackupCmd :: "'e env \<Rightarrow> CommandOptions \<Rightarrow> 'e world \<Rightarrow> status \<times> 'e world" where
  "restoreBackupCmd env options w0 =
    (let co = componentOptions options;
         (backupFilePath, w1) = selectBackupFile env w0
     in case backupFilePath of
          None \<Rightarrow> (Exited 0, w1)
        | Some path \<Rightarrow>
           (let (success, w2) =
                  restoreSettingsFromZip env path False (Some co) (opt_noBackup options = Some True) w1
            in if success then (Returned, w2) else (Exited 1, emit [Error RestoreFailed] w2)))"


section \<open>Importing a profile\<close>

definition METADATA_FILE :: string where
  "METADATA_FILE = ''cinnamon-profile-manager-metadata.json''"

text \<open>The name \<^verbatim>\<open>importProfile\<close> registers: from the file name, then from the metadata
  (\<open>metadata_name\<close> is \<^verbatim>\<open>JSON.parse(text).profileName\<close> when that is a string), then from
  the user's answer, then the generated fallback.\<close>

definition import_name :: "'e env \<Rightarrow> string \<Rightarrow> 'e tree \<Rightarrow> string" where
  "import_name env filepath t =
    (let derived = sanitize (strip_export_suffix (strip_profile_prefix (basename filepath ''.zip'')));
         n0 = (if derived = [] then ''imported-'' @ decimal (now_ms env) else derived);
         n1 = (case map_of (tfiles t) METADATA_FILE of
                 None \<Rightarrow> n0
               | Some text \<Rightarrow>
                  (case metadata_name env text of
                     None \<Rightarrow> n0
                   | Some pn \<Rightarrow> if pn \<noteq> [] then sanitize pn else n0));
         n2 = (case prompt_input env of
                 None \<Rightarrow> n1
               | Some newNameInput \<Rightarrow>
                  if trim newNameInput \<noteq> [] then sanitize (trim newNameInput) else n1)
     in if n2 = [] then ''imported-profile-'' @ decimal (now_ms env) else n2)"

definition importProfile :: "'e env \<Rightarrow> string \<Rightarrow> 'e world \<Rightarrow> status \<times> 'e world" where
  "importProfile env filepath w0 =
    (if archives w0 filepath = None
     then (Exited 1, emit [Error (ImportFileNotFound filepath)] w0)
     else
      (case unzipArchive env filepath w0 of
         (None, w1) \<Rightarrow> (Exited 1, w1)
       | (Some t, w1) \<Rightarrow>
          (let profileName = import_name env filepath t;
               (profiles, w2) = readProfiles env w1;
               (cancelled, profiles', w3) =
                 (case findIndex (\<lambda>p. name p = profileName) profiles of
                    None \<Rightarrow> (False, profiles, w2)
                  | Some i \<Rightarrow>
                     (let overwrite = confirm env ConfirmOverwrite;
                          wa = emit [Asked ConfirmOverwrite overwrite] w2
                      in if \<not> overwrite then (True, profiles, wa)
                         else
                          (let old = zipFile (profiles ! i);
                               wb = (if archives wa old \<noteq> None
                                     then (if remove_throws env old
                                           then emit [Warning (ArchiveDeleteFailed old)] wa
                                           else wa\<lparr>archives := (archives wa)(old := None)\<rparr>)
                                     else wa)
                           in (False, splice1 i profiles, wb))))
           in if cancelled then (Exited 0, w3)
              else
               (let newZipFile = join (root env) (profileName @ ''-'' @ uuid env @ ''.zip'');
                    (zipped, w4) = zipDirectoryContents env (Some t) newZipFile w3
                in if \<not> zipped then (Exited 1, emit [Error ImportArchiveFailed] w4)
                   else (Returned,
                         writeProfiles
                           (profiles' @
                            [\<lparr>name = profileName, active = False, lastModified = now_iso env,
                              zipFile = newZipFile\<rparr>])
                           w4)))))"



section \<open>Backup before mutation, as a property of traces\<close>

text \<open>
  How far a run is protected when it reaches a wipe: no backup attempted yet, a backup
  taken, a backup attempt that failed, or a failed attempt that the user chose to
  override by answering yes to the second confirmation.
\<close>

datatype guard = Unprotected | BackedUp | BackupFailed | Overridden

text \<open>
  One step of the monitor; \<open>None\<close> is a violation. Under \<open>strict\<close> a wipe is allowed
  after a backup or after an overridden failure; otherwise an attempted backup is
  enough, failed or not.
\<close>

fun guard_step :: "bool \<Rightarrow> guard \<Rightarrow> event \<Rightarrow> guard option" where
  "guard_step strict g (BackupAttempt pfx ok) = Some (if ok then BackedUp else BackupFailed)"
| "guard_step strict g (Asked q a) =
    Some (if q = ConfirmContinueWithoutBackup \<and> a \<and> g = BackupFailed then Overridden else g)"
| "guard_step strict g (EmptyDir l) =
    (if g = BackedUp \<or> g = Overridden \<or> (\<not> strict \<and> g = BackupFailed) then Some g else None)"
| "guard_step strict g (Error m) = Some g"
| "guard_step strict g (Warning m) = Some g"

fun monitor :: "bool \<Rightarrow> guard \<Rightarrow> event list \<Rightarrow> guard option" where
  "monitor strict g [] = Some g"
| "monitor strict g (e # es) =
    (case guard_step strict g e of None \<Rightarrow> None | Some g' \<Rightarrow> monitor strict g' es)"

definition backup_before_wipe :: "bool \<Rightarrow> event list \<Rightarrow> bool" where
  "backup_before_wipe strict tr = (monitor strict Unprotected tr \<noteq> None)"

text \<open>The events that are only log lines.\<close>

fun is_log :: "event \<Rightarrow> bool" where
  "is_log (Error m) = True"
| "is_log (Warning m) = True"
| "is_log e = False"

text \<open>A state in which the monitor lets a wipe pass.\<close>

definition protected :: "bool \<Rightarrow> guard \<Rightarrow> bool" where
  "protected strict g = (g = BackedUp \<or> g = Overridden \<or> (\<not> strict \<and> g = BackupFailed))"


section \<open>Concrete runs\<close>

text \<open>An environment in which every tool succeeds and every answer is yes; entries are
  plain files, named by their contents.\<close>

definition ideal_env :: "string env" where
  "ideal_env =
    \<lparr>root = ''/p'',
     std_copy = (\<lambda>src dst n e old. Copied e),
     zip_tool = (\<lambda>t path old. Some t),
     unzip_tool = (\<lambda>path t. Some t),
     dconf_dump_ok = True,
     dconf_reset_ok = True,
     dconf_file_readable = True,
     dconf_load = (\<lambda>old new. Some new),
     confirm = (\<lambda>q. True),
     prompt_input = None,
     now_iso = ''2025-01-01T00:00:00.000Z'',
     now_ms = 1735,
     uuid = ''u1'',
     remove_throws = (\<lambda>path. False),
     quarantine_copy_ok = True,
     db_read_throws = False,
     db_write_throws = False,
     date_parse = (\<lambda>s. None),
     metadata_name = (\<lambda>s. None),
     localeCompare = (\<lambda>a b. 0)\<rparr>"

definition empty_world :: "string world" where
  "empty_world =
    \<lparr>live = (\<lambda>l. None),
     dconf_ns = [],
     archives = (\<lambda>path. None),
     db = Some (Serialized []),
     quarantine = (\<lambda>path. None),
     manual_listing = Some [],
     auto_listing = Some [],
     trace = []\<rparr>"

definition no_options :: CommandOptions where
  "no_options =
    \<lparr>opt_userThemes = None, opt_addSystemThemes = None, opt_userIconsLocal = None,
     opt_userIconsHome = None, opt_addSystemIcons = None, opt_userFontsLocal = None,
     opt_userFontsHome = None, opt_addSystemFonts = None, opt_dconf = None,
     opt_noBackup = None\<rparr>"

definition work_profile :: profile where
  "work_profile = \<lparr>name = ''work'', active = False, lastModified = ''t1'', zipFile = ''/p/work-u0.zip''\<rparr>"

definition home_profile :: profile where
  "home_profile = \<lparr>name = ''home'', active = True, lastModified = ''t2'', zipFile = ''/p/home-u9.zip''\<rparr>"

definition work_archive :: "string tree" where
  "work_archive = \<lparr>tdirs = [(''share'', [(''a'', ''A'')])], tfiles = []\<rparr>"

definition two_profiles_world :: "string world" where
  "two_profiles_world =
    empty_world\<lparr>db := Some (Serialized [work_profile, home_profile]),
                archives := (\<lambda>path. if path = ''/p/work-u0.zip'' then Some work_archive else None)\<rparr>"

definition export_path :: string where
  "export_path = ''/dl/Cinnamon-Profile-My Work-export-2025-01-02T03-04-05-678Z.zip''"

definition import_world :: "string world" where
  "import_world =
    two_profiles_world\<lparr>archives := (\<lambda>path. if path = export_path then Some work_archive else None)\<rparr>"

text \<open>A \<^verbatim>\<open>zip\<close> that exits non-zero when there is nothing to add, and an empty scratch
  directory.\<close>

definition nothing_to_do_env :: "string env" where
  "nothing_to_do_env =
    ideal_env\<lparr>zip_tool := (\<lambda>t path old. if tdirs t = [] \<and> tfiles t = [] then None else Some t)\<rparr>"

definition empty_tree :: "string tree" where
  "empty_tree = \<lparr>tdirs = [], tfiles = []\<rparr>"

text \<open>An \<^verbatim>\<open>unzip\<close> that always exits non-zero.\<close>

definition broken_unzip_env :: "string env" where
  "broken_unzip_env = ideal_env\<lparr>unzip_tool := (\<lambda>path t. None)\<rparr>"

text \<open>One manual backup on disk, and a user who types \<^verbatim>\<open>1abc\<close>.\<close>

definition one_backup_world :: "string world" where
  "one_backup_world =
    empty_world\<lparr>manual_listing := Some [(''manual-backup-2025-01-02T03-04-05-678Z.zip'', True)]\<rparr>"

definition typing_env :: "string \<Rightarrow> string env" where
  "typing_env input = ideal_env\<lparr>prompt_input := Some input\<rparr>"

text \<open>A backup to restore, live settings to lose, a user who picks backup 1, and a
  \<^verbatim>\<open>zip\<close> that fails.\<close>

definition backup_path :: string where
  "backup_path = ''/p/backup/manual-backup-2025-01-02T03-04-05-678Z.zip''"

definition restore_world :: "string world" where
  "restore_world =
    one_backup_world
      \<lparr>archives := (\<lambda>path. if path = backup_path then Some work_archive else None),
       live := (\<lambda>l. if l = Share then Some [(''old'', ''O'')] else None)\<rparr>"

definition failing_zip_env :: "string env" where
  "failing_zip_env = (typing_env ''1'')\<lparr>zip_tool := (\<lambda>t path old. None)\<rparr>"

text \<open>A \<^verbatim>\<open>zip\<close> that fails and a user who declines to go on without a backup; and two
  profiles with live settings in place.\<close>

definition declining_env :: "string env" where
  "declining_env =
    ideal_env\<lparr>zip_tool := (\<lambda>t path old. None),
              confirm := (\<lambda>q. q \<noteq> ConfirmContinueWithoutBackup)\<rparr>"

definition busy_world :: "string world" where
  "busy_world = two_profiles_world\<lparr>live := (\<lambda>l. if l = Share then Some [(''old'', ''O'')] else None)\<rparr>"

text \<open>Live settings with one entry that cannot be copied.\<close>

definition unreadable_env :: "string env" where
  "unreadable_env =
    ideal_env\<lparr>std_copy := (\<lambda>src dst n e old.
                 if src = Live Share \<and> n = ''secret'' then CopyFailed old else Copied e)\<rparr>"

definition secret_world :: "string world" where
  "secret_world =
    empty_world\<lparr>live := (\<lambda>l. if l = Share then Some [(''secret'', ''S''), (''panel'', ''P'')]
                            else None)\<rparr>"

text \<open>Live settings in several locations, and a dconf namespace.\<close>

definition settled_world :: "string world" where
  "settled_world =
    empty_world\<lparr>live := (\<lambda>l. if l = Share then Some [(''applets'', ''A''), (''panel'', ''P'')]
                            else if l = Config then Some [(''spices'', ''C'')]
                            else if l = UserThemes then Some [(''Mint-Y'', ''T'')]
                            else if l = UserFonts then Some [(''fira'', ''N'')]
                            else if l = SystemFonts then Some [(''dejavu'', ''F'')]
                            else None),
                dconf_ns := ''[desktop]''\<rparr>"

text \<open>
  A user who cannot write to the system-wide theme, icon and font directories, with a
  \<^verbatim>\<open>zip\<close> that exits non-zero when there is nothing to add; and the live state some time
  after a manual backup of \<open>settled_world\<close>: the backup is still there, the settings
  have changed.
\<close>

definition unprivileged_env :: "string env" where
  "unprivileged_env =
    nothing_to_do_env\<lparr>std_copy := (\<lambda>src dst n e old.
        if dst = Live SystemThemes \<or> dst = Live SystemIcons \<or> dst = Live SystemFonts
        then CopyFailed old else Copied e)\<rparr>"

definition later_world :: "string world" where
  "later_world =
    (snd (createTimestampedBackup unprivileged_env ''/p/backup'' ''manual-backup''
            (Some (componentOptions no_options)) settled_world))
      \<lparr>live := (\<lambda>l. if l = Share then Some [(''junk'', ''J'')]
                    else if l = UserThemes then Some [(''Mint-Y'', ''X''), (''Extra'', ''E'')]
                    else if l = SystemFonts then Some [(''dejavu'', ''F2'')]
                    else None),
       dconf_ns := ''[changed]''\<rparr>"

definition corrupt_world :: "string world" where
  "corrupt_world = empty_world\<lparr>db := Some (Malformed ''{oops'')\<rparr>"

definition no_quarantine_env :: "string env" where
  "no_quarantine_env = ideal_env\<lparr>quarantine_copy_ok := False\<rparr>"

text \<open>A profiles directory that cannot be written: neither the side file nor the registry
  document.\<close>

definition readonly_env :: "string env" where
  "readonly_env = ideal_env\<lparr>quarantine_copy_ok := False, db_write_throws := True\<rparr>"


section \<open>Frame lemmas\<close>

lemma emit_simps [simp]:
  "live (emit es w) = live w" "dconf_ns (emit es w) = dconf_ns w"
  "archives (emit es w) = archives w" "db (emit es w) = db w"
  "quarantine (emit es w) = quarantine w" "trace (emit es w) = trace w @ es"
  "manual_listing (emit es w) = manual_listing w" "auto_listing (emit es w) = auto_listing w"
  by (simp_all add: emit_def)

lemma emit_emit [simp]: "emit es (emit es' w) = emit (es' @ es) w"
  by (simp add: emit_def)

lemma emit_Nil [simp]: "emit [] w = w"
  by (simp add: emit_def)

lemma zip_frame [simp]:
  "live (snd (zipDirectoryContents env t p w)) = live w"
  "dconf_ns (snd (zipDirectoryContents env t p w)) = dconf_ns w"
  "db (snd (zipDirectoryContents env t p w)) = db w"
  by (simp_all add: zipDirectoryContents_def Let_def split: option.splits)

lemma unzip_frame [simp]:
  "live (snd (unzipArchive env p w)) = live w"
  "dconf_ns (snd (unzipArchive env p w)) = dconf_ns w"
  "db (snd (unzipArchive env p w)) = db w"
  "archives (snd (unzipArchive env p w)) = archives w"
  by (simp_all add: unzipArchive_def split: option.splits)

lemma backup_frame [simp]:
  "live (snd (createTimestampedBackup env dir pfx co w)) = live w"
  "dconf_ns (snd (createTimestampedBackup env dir pfx co w)) = dconf_ns w"
  "db (snd (createTimestampedBackup env dir pfx co w)) = db w"
  by (simp_all add: createTimestampedBackup_def Let_def case_prod_beta)

lemma emptyDir_frame [simp]:
  "dconf_ns (emptyDirIfExists l w) = dconf_ns w"
  "db (emptyDirIfExists l w) = db w"
  "archives (emptyDirIfExists l w) = archives w"
  by (simp_all add: emptyDirIfExists_def)

lemma mkdir_frame [simp]:
  "dconf_ns (mkdir l w) = dconf_ns w"
  "db (mkdir l w) = db w"
  "archives (mkdir l w) = archives w"
  "trace (mkdir l w) = trace w"
  by (simp_all add: mkdir_def)

lemma restoreInto_frame [simp]:
  "dconf_ns (restoreInto env l sub d w) = dconf_ns w"
  "db (restoreInto env l sub d w) = db w"
  "archives (restoreInto env l sub d w) = archives w"
  by (simp_all add: restoreInto_def case_prod_beta)

lemma restoreCore_frame [simp]:
  "dconf_ns (restoreCore env l sub m t w) = dconf_ns w"
  "db (restoreCore env l sub m t w) = db w"
  "archives (restoreCore env l sub m t w) = archives w"
  by (simp_all add: restoreCore_def split: option.splits)

lemma restoreLocation_frame [simp]:
  "dconf_ns (restoreLocation env b l sub t w) = dconf_ns w"
  "db (restoreLocation env b l sub t w) = db w"
  "archives (restoreLocation env b l sub t w) = archives w"
  by (simp_all add: restoreLocation_def split: option.splits)

lemma restoreTIF_frame [simp]:
  "dconf_ns (restoreThemeIconAndFontDirectories env t co w) = dconf_ns w"
  "db (restoreThemeIconAndFontDirectories env t co w) = db w"
  "archives (restoreThemeIconAndFontDirectories env t co w) = archives w"
  by (simp_all add: restoreThemeIconAndFontDirectories_def restoreThemeDirectories_def
      restoreIconDirectories_def restoreFontDirectories_def)

lemma restoreDconf_frame [simp]:
  "live (restoreDconf env t co w) = live w"
  "db (restoreDconf env t co w) = db w"
  "archives (restoreDconf env t co w) = archives w"
  by (simp_all add: restoreDconf_def Let_def split: option.splits)

lemma preRestoreBackup_frame [simp]:
  "live (preRestoreBackup env co w) = live w"
  "dconf_ns (preRestoreBackup env co w) = dconf_ns w"
  "db (preRestoreBackup env co w) = db w"
  by (simp_all add: preRestoreBackup_def Let_def case_prod_beta)

lemma restoreSettings_db [simp]:
  "db (snd (restoreSettingsFromZip env p sw co sb w)) = db w"
  by (simp add: restoreSettingsFromZip_def Let_def case_prod_beta split: option.splits)


section \<open>Properties of the registry\<close>

lemma findIndex_Some:
  "findIndex P xs = Some i \<Longrightarrow> i < length xs \<and> P (xs ! i) \<and> (\<forall>j<i. \<not> P (xs ! j))"
proof (induction xs arbitrary: i)
  case Nil
  then show ?case by simp
next
  case (Cons x xs)
  show ?case
  proof (cases "P x")
    case True
    with Cons.prems show ?thesis by simp
  next
    case False
    with Cons.prems obtain k where k: "findIndex P xs = Some k" "i = Suc k" by auto
    from Cons.IH[OF k(1)] False k(2) show ?thesis
      by (auto simp: nth_Cons less_Suc_eq_0_disj split: nat.splits)
  qed
qed

lemma findIndex_None: "findIndex P xs = None \<longleftrightarrow> (\<forall>x\<in>set xs. \<not> P x)"
  by (induction xs) auto

lemma findIndex_ex: "\<exists>x\<in>set xs. P x \<Longrightarrow> \<exists>i. findIndex P xs = Some i"
  using findIndex_None[of P xs] by (cases "findIndex P xs") auto

lemma readProfiles_valid:
  "db w = Some (Serialized ps) \<Longrightarrow> readProfiles env w = (ps, w)"
  by (simp add: readProfiles_def)

lemma readProfiles_fst: "fst (readProfiles env w) = registry w"
  by (simp add: readProfiles_def registry_def Let_def split: option.splits)

lemma readProfiles_registry: "registry (snd (readProfiles env w)) = registry w"
  by (simp add: readProfiles_def registry_def Let_def split: option.splits)

lemma readProfiles_keeps:
  "live (snd (readProfiles env w)) = live w"
  "dconf_ns (snd (readProfiles env w)) = dconf_ns w"
  "archives (snd (readProfiles env w)) = archives w"
  by (simp_all add: readProfiles_def Let_def split: option.splits)

lemma readProfiles_nonempty:
  "registry w \<noteq> [] \<Longrightarrow> readProfiles env w = (registry w, w)"
  by (auto simp add: readProfiles_def registry_def Let_def split: option.splits)

lemma registry_writeProfiles [simp]: "registry (writeProfiles ps w) = ps"
  by (simp add: registry_def writeProfiles_def)

lemma registry_emit [simp]: "registry (emit es w) = registry w"
  by (simp add: registry_def)

lemma registry_cong: "db w' = db w \<Longrightarrow> registry w' = registry w"
  by (simp add: registry_def)

lemma list_ex_name: "list_ex (\<lambda>p. name p = nm) ps \<longleftrightarrow> nm \<in> name ` set ps"
  by (auto simp: list_ex_iff)

lemma createProfile_registry:
  "registry (snd (createProfile env nm options w)) =
     (if fst (createProfile env nm options w) = Returned
      then map (\<lambda>p. p\<lparr>active := False\<rparr>) (registry w) @ [new_profile env nm]
      else registry w)"
  by (simp add: createProfile_def Let_def case_prod_beta readProfiles_fst readProfiles_registry
      new_profile_def registry_cong[of _ "snd (readProfiles env w)"])

lemma createProfile_fresh:
  "fst (createProfile env nm options w) = Returned \<Longrightarrow> nm \<notin> name ` set (registry w)"
  by (simp add: createProfile_def Let_def case_prod_beta readProfiles_fst list_ex_name
      split: if_splits)

lemma createProfile_duplicate:
  "nm \<in> name ` set (registry w) \<Longrightarrow>
   createProfile env nm options w = (Exited 1, emit [Error (DuplicateName nm)] w)"
proof -
  assume a: "nm \<in> name ` set (registry w)"
  then have "registry w \<noteq> []" by auto
  then have "readProfiles env w = (registry w, w)" by (rule readProfiles_nonempty)
  with a show ?thesis by (simp add: createProfile_def list_ex_name)
qed

lemma filter_active_deactivated: "filter active (map (\<lambda>p. p\<lparr>active := False\<rparr>) ps) = []"
  by (induction ps) auto

lemma createProfile_distinct:
  "distinct (map name (registry w)) \<Longrightarrow>
   distinct (map name (registry (snd (createProfile env nm options w))))"
  using createProfile_fresh[of env nm options w]
  by (auto simp: createProfile_registry new_profile_def comp_def)

lemma run_creates_distinct:
  "distinct (map name (registry w)) \<Longrightarrow> distinct (map name (registry (run_creates cs w)))"
proof (induction cs arbitrary: w)
  case Nil
  then show ?case by simp
next
  case (Cons c cs)
  obtain env nm options where c: "c = (env, nm, options)" by (cases c)
  from Cons.prems have "distinct (map name (registry (snd (createProfile env nm options w))))"
    by (rule createProfile_distinct)
  then show ?case using Cons.IH c by simp
qed

lemma switchBackup_frame [simp]:
  "live (snd (snd (switchBackup env nm options co w))) = live w"
  "dconf_ns (snd (snd (switchBackup env nm options co w))) = dconf_ns w"
  "db (snd (snd (switchBackup env nm options co w))) = db w"
  by (simp_all add: switchBackup_def Let_def case_prod_beta)

lemma switchProfile_registry:
  assumes ok: "fst (switchProfile env nm options w) = Returned"
  shows "nm \<in> name ` set (registry w) \<and>
   registry (snd (switchProfile env nm options w)) =
     touch_first nm (now_iso env) (map (\<lambda>p. p\<lparr>active := (name p = nm)\<rparr>) (registry w))"
proof (cases "find (\<lambda>p. name p = nm) (registry w)")
  case None
  with ok show ?thesis
    by (simp add: switchProfile_def case_prod_beta readProfiles_fst)
next
  case (Some p)
  then have mem: "nm \<in> name ` set (registry w)"
    by (auto simp: find_Some_iff)
  from ok Some have "registry (snd (switchProfile env nm options w)) =
     touch_first nm (now_iso env) (map (\<lambda>p. p\<lparr>active := (name p = nm)\<rparr>) (registry w))"
    by (simp add: switchProfile_def Let_def case_prod_beta readProfiles_fst split: if_splits)
  with mem show ?thesis by simp
qed

lemma touch_first_name [simp]: "map name (touch_first nm t ps) = map name ps"
  by (induction ps) auto

lemma count_activated:
  "length (filter active (map (\<lambda>p. p\<lparr>active := (name p = nm)\<rparr>) ps)) =
   length (filter (\<lambda>p. name p = nm) ps)"
  by (induction ps) (auto simp: comp_def)

lemma count_touched:
  "length (filter active (touch_first nm t (map (\<lambda>p. p\<lparr>active := (name p = nm)\<rparr>) ps))) =
   length (filter (\<lambda>p. name p = nm) ps)"
  by (induction ps) (auto simp: comp_def)

lemma count_name:
  "distinct (map name ps) \<Longrightarrow> nm \<in> name ` set ps \<Longrightarrow>
   length (filter (\<lambda>p. name p = nm) ps) = 1"
proof (induction ps)
  case Nil
  then show ?case by simp
next
  case (Cons p ps)
  show ?case
  proof (cases "name p = nm")
    case True
    with Cons.prems(1) have "nm \<notin> name ` set ps" by simp
    then have "\<forall>q\<in>set ps. name q \<noteq> nm" by blast
    then have "filter (\<lambda>p. name p = nm) ps = []"
      by (simp add: filter_empty_conv)
    with True show ?thesis by simp
  next
    case False
    with Cons show ?thesis by auto
  qed
qed

lemma switched_flags:
  "\<forall>p\<in>set (touch_first nm t (map (\<lambda>p. p\<lparr>active := (name p = nm)\<rparr>) ps)). active p = (name p = nm)"
  by (induction ps) auto

lemmas run_defs =
  createProfile_def switchProfile_def switchBackup_def readProfiles_def writeProfiles_def
  stage_def stageCore_def stageLocation_def stageDconf_def copyThemeIconAndFontDirectories_def
  copyThemeDirectories_def copyIconDirectories_def copyFontDirectories_def
  copyDirectoryContents_def zipDirectoryContents_def unzipArchive_def
  createTimestampedBackup_def restoreSettingsFromZip_def preRestoreBackup_def
  emptyDirIfExists_def mkdir_def restoreInto_def restoreCore_def restoreLocation_def
  restoreThemeIconAndFontDirectories_def restoreThemeDirectories_def
  restoreIconDirectories_def restoreFontDirectories_def restoreDconf_def
  componentOptions_def all_components_def emit_def Let_def

lemmas fixture_defs =
  ideal_env_def empty_world_def no_options_def two_profiles_world_def work_profile_def
  home_profile_def work_archive_def

lemma create_play_returns: "fst (createProfile ideal_env ''play'' no_options two_profiles_world) = Returned"
  by (simp add: run_defs fixture_defs)

lemma switch_work_returns: "fst (switchProfile ideal_env ''work'' no_options two_profiles_world) = Returned"
  by (simp add: run_defs fixture_defs)

lemma registry_two_profiles: "registry two_profiles_world = [work_profile, home_profile]"
  by (simp add: registry_def fixture_defs)

lemma deleteProfile_found:
  assumes "db w = Some (Serialized ps)" "findIndex (\<lambda>p. name p = nm) ps = Some i"
  shows "fst (deleteProfile env nm w) = Returned"
    and "db (snd (deleteProfile env nm w)) = Some (Serialized (splice1 i ps))"
  using assms
  by (simp_all add: deleteProfile_def readProfiles_valid writeProfiles_def emit_def Let_def)

lemma splice1_inactive:
  assumes "\<forall>j<length ps. j \<noteq> i \<longrightarrow> \<not> active (ps ! j)"
  shows "\<forall>p\<in>set (take i ps @ drop (Suc i) ps). \<not> active p"
proof
  fix p assume p: "p \<in> set (take i ps @ drop (Suc i) ps)"
  from p consider "p \<in> set (take i ps)" | "p \<in> set (drop (Suc i) ps)" by auto
  then show "\<not> active p"
  proof cases
    case 1
    then obtain j where "j < i" "j < length ps" "p = ps ! j"
      by (auto simp: in_set_conv_nth)
    with assms show ?thesis by auto
  next
    case 2
    then obtain k where "k < length ps - Suc i" "p = ps ! (Suc i + k)"
      by (auto simp: in_set_conv_nth)
    with assms show ?thesis by auto
  qed
qed

text \<open>
  C10. For a registry \<open>ps\<close> that holds a profile named \<open>nm\<close>, \<open>deleteProfile\<close> returns
  normally and writes \<open>ps\<close> without its first entry of that name, at index \<open>i\<close>: every
  other entry stays as it was, in the same order, with its \<open>active\<close> flag and
  \<open>lastModified\<close>. This holds in every environment, so also when removing the archive
  file throws. When the removed entry was the only active one, no entry of the new
  registry is active.
\<close>

theorem deleteProfile_frame:
  assumes "db w = Some (Serialized ps)" and "nm \<in> name ` set ps"
  shows "\<exists>i. i < length ps \<and> name (ps ! i) = nm \<and> (\<forall>j<i. name (ps ! j) \<noteq> nm) \<and>
           fst (deleteProfile env nm w) = Returned \<and>
           db (snd (deleteProfile env nm w)) = Some (Serialized (take i ps @ drop (Suc i) ps)) \<and>
           (active (ps ! i) \<and> (\<forall>j<length ps. j \<noteq> i \<longrightarrow> \<not> active (ps ! j))
              \<longrightarrow> (\<forall>p\<in>set (take i ps @ drop (Suc i) ps). \<not> active p))"
proof -
  from assms(2) have "\<exists>x\<in>set ps. name x = nm" by auto
  then obtain i where i: "findIndex (\<lambda>p. name p = nm) ps = Some i"
    using findIndex_ex[of ps "\<lambda>p. name p = nm"] by blast
  note fi = findIndex_Some[OF i]
  show ?thesis
    using fi deleteProfile_found[OF assms(1) i, of env] splice1_inactive[of ps i]
    by (intro exI[of _ i]) (simp add: splice1_def)
qed

theorem deleteProfile_frame_witness:
  "db two_profiles_world = Some (Serialized [work_profile, home_profile]) \<and>
   ''home'' \<in> name ` set [work_profile, home_profile] \<and>
   fst (deleteProfile (ideal_env\<lparr>remove_throws := (\<lambda>path. True)\<rparr>) ''home'' two_profiles_world) = Returned \<and>
   db (snd (deleteProfile (ideal_env\<lparr>remove_throws := (\<lambda>path. True)\<rparr>) ''home'' two_profiles_world))
     = Some (Serialized [work_profile])"
proof -
  let ?env = "ideal_env\<lparr>remove_throws := (\<lambda>path. True)\<rparr>"
  have h1: "db two_profiles_world = Some (Serialized [work_profile, home_profile])"
    by (simp add: two_profiles_world_def empty_world_def)
  have h2: "''home'' \<in> name ` set [work_profile, home_profile]"
    by (simp add: home_profile_def)
  from deleteProfile_frame[OF h1 h2, of ?env]
  obtain i where i: "i < length [work_profile, home_profile]"
    "name ([work_profile, home_profile] ! i) = ''home''"
    "fst (deleteProfile ?env ''home'' two_profiles_world) = Returned"
    "db (snd (deleteProfile ?env ''home'' two_profiles_world))
       = Some (Serialized (take i [work_profile, home_profile] @ drop (Suc i) [work_profile, home_profile]))"
    by blast
  from i(1,2) have "i = 1"
    by (cases i) (simp_all add: work_profile_def)
  with i(3,4) h1 h2 show ?thesis by simp
qed

text \<open>Without an exception, \<open>readProfiles_throwing\<close> is \<open>readProfiles\<close>.\<close>

lemma readProfiles_throwing_quiet:
  assumes "\<not> db_read_throws env" and "\<not> db_write_throws env"
  shows "readProfiles_throwing env w = (Inr (fst (readProfiles env w)), snd (readProfiles env w))"
  using assms
  by (simp add: readProfiles_throwing_def readProfiles_def Let_def split: option.splits)

text \<open>
  Claim C6. The registry document does not parse to an array. If it can be read,
  \<open>readProfiles\<close> logs the parse error and attempts the quarantine copy to the side file
  \<^verbatim>\<open>profiles.json.corrupted-<now>\<close>: when the copy succeeds the side file holds the original
  text, and when it fails the failure is logged and no side file is written. It then
  rewrites the document: if the write succeeds, the document is the empty collection,
  the empty list is returned, and live settings, dconf and archives are untouched; if
  the write throws, the exception goes to the caller and the document is still the
  corrupt one. If the document cannot be read, the exception goes to the caller and
  nothing has happened.
\<close>

theorem readProfiles_recovers:
  assumes "db w = Some content" and "parse_profiles content = None"
  shows "(db_read_throws env \<longrightarrow> readProfiles_throwing env w = (Inl ReadTextFileError, w)) \<and>
         (\<not> db_read_throws env \<longrightarrow>
            fst (readProfiles_throwing env w) =
              (if db_write_throws env then Inl WriteTextFileError else Inr []) \<and>
            db (snd (readProfiles_throwing env w)) =
              (if db_write_throws env then Some content else Some (Serialized [])) \<and>
            quarantine (snd (readProfiles_throwing env w)) =
              (if quarantine_copy_ok env
               then (quarantine w)(PROFILES_DB_FILE env @ ''.corrupted-'' @ decimal (now_ms env) \<mapsto> content)
               else quarantine w) \<and>
            trace (snd (readProfiles_throwing env w)) =
              trace w @ [Error ParseError, Warning BackingUpCorrupted] @
              (if quarantine_copy_ok env then [] else [Error QuarantineFailed]) \<and>
            live (snd (readProfiles_throwing env w)) = live w \<and>
            dconf_ns (snd (readProfiles_throwing env w)) = dconf_ns w \<and>
            archives (snd (readProfiles_throwing env w)) = archives w)"
  using assms by (simp add: readProfiles_throwing_def emit_def Let_def)

theorem readProfiles_recovers_witness:
  "db corrupt_world = Some (Malformed ''{oops'') \<and>
   parse_profiles (Malformed ''{oops'') = None \<and>
   \<not> db_read_throws ideal_env \<and> \<not> db_write_throws ideal_env \<and>
   fst (readProfiles_throwing ideal_env corrupt_world) = Inr [] \<and>
   db (snd (readProfiles_throwing ideal_env corrupt_world)) = Some (Serialized []) \<and>
   quarantine (snd (readProfiles_throwing ideal_env corrupt_world))
     (PROFILES_DB_FILE ideal_env @ ''.corrupted-'' @ decimal (now_ms ideal_env))
     = Some (Malformed ''{oops'') \<and>
   db_read_throws (ideal_env\<lparr>db_read_throws := True\<rparr>) \<and>
   readProfiles_throwing (ideal_env\<lparr>db_read_throws := True\<rparr>) corrupt_world =
     (Inl ReadTextFileError, corrupt_world)"
proof -
  have h1: "db corrupt_world = Some (Malformed ''{oops'')"
    by (simp add: corrupt_world_def empty_world_def)
  have h2: "parse_profiles (Malformed ''{oops'') = None" by simp
  have ok: "quarantine_copy_ok ideal_env" "\<not> db_read_throws ideal_env" "\<not> db_write_throws ideal_env"
    by (simp_all add: ideal_env_def)
  from readProfiles_recovers[OF h1 h2, of ideal_env]
    readProfiles_recovers[OF h1 h2, of "ideal_env\<lparr>db_read_throws := True\<rparr>"] ok h1 h2
  show ?thesis by simp
qed

theorem readProfiles_quarantine_counterexample:
  "db corrupt_world = Some (Malformed ''{oops'') \<and>
   fst (readProfiles_throwing readonly_env corrupt_world) = Inl WriteTextFileError \<and>
   db (snd (readProfiles_throwing readonly_env corrupt_world)) = Some (Malformed ''{oops'') \<and>
   quarantine (snd (readProfiles_throwing readonly_env corrupt_world)) = (\<lambda>path. None) \<and>
   fst (readProfiles_throwing no_quarantine_env corrupt_world) = Inr [] \<and>
   db (snd (readProfiles_throwing no_quarantine_env corrupt_world)) = Some (Serialized []) \<and>
   quarantine (snd (readProfiles_throwing no_quarantine_env corrupt_world)) = (\<lambda>path. None)"
  by (simp add: readProfiles_throwing_def emit_def Let_def corrupt_world_def empty_world_def
      no_quarantine_env_def readonly_env_def ideal_env_def)

text \<open>
  C1. After a \<open>createProfile\<close> that returns, the registry is the old one with every
  \<open>active\<close> flag cleared, followed by the new profile, which is active: exactly one
  entry is active. After a \<open>switchProfile\<close> that returns (its apply step succeeded), on
  a registry whose names are unique, the names are as before, an entry is active
  exactly when it has the requested name, and exactly one entry is active.
\<close>

theorem single_active:
  "(fst (createProfile env nm options w) = Returned \<longrightarrow>
      length (filter active (registry (snd (createProfile env nm options w)))) = 1 \<and>
      registry (snd (createProfile env nm options w)) =
        map (\<lambda>p. p\<lparr>active := False\<rparr>) (registry w) @
        [\<lparr>name = nm, active = True, lastModified = now_iso env,
          zipFile = join (root env) (nm @ ''-'' @ uuid env @ ''.zip'')\<rparr>]) \<and>
   (distinct (map name (registry w)) \<and> fst (switchProfile env nm options w) = Returned \<longrightarrow>
      length (filter active (registry (snd (switchProfile env nm options w)))) = 1 \<and>
      (\<forall>p\<in>set (registry (snd (switchProfile env nm options w))). active p = (name p = nm)) \<and>
      map name (registry (snd (switchProfile env nm options w))) = map name (registry w))"
proof (intro conjI impI)
  assume ok: "fst (createProfile env nm options w) = Returned"
  then show "registry (snd (createProfile env nm options w)) =
        map (\<lambda>p. p\<lparr>active := False\<rparr>) (registry w) @
        [\<lparr>name = nm, active = True, lastModified = now_iso env,
          zipFile = join (root env) (nm @ ''-'' @ uuid env @ ''.zip'')\<rparr>]"
    by (simp add: createProfile_registry new_profile_def)
  then show "length (filter active (registry (snd (createProfile env nm options w)))) = 1"
    by (simp add: filter_active_deactivated)
next
  assume a: "distinct (map name (registry w)) \<and> fst (switchProfile env nm options w) = Returned"
  note r = switchProfile_registry[of env nm options w]
  from a r show "length (filter active (registry (snd (switchProfile env nm options w)))) = 1"
    by (simp add: count_touched count_name)
  from a r show "\<forall>p\<in>set (registry (snd (switchProfile env nm options w))). active p = (name p = nm)"
    using switched_flags[of nm "now_iso env" "registry w"] by simp
  from a r show "map name (registry (snd (switchProfile env nm options w))) = map name (registry w)"
    by (simp add: comp_def)
qed

theorem single_active_witness:
  "fst (createProfile ideal_env ''play'' no_options two_profiles_world) = Returned \<and>
   length (filter active (registry (snd (createProfile ideal_env ''play'' no_options two_profiles_world)))) = 1 \<and>
   distinct (map name (registry two_profiles_world)) \<and>
   fst (switchProfile ideal_env ''work'' no_options two_profiles_world) = Returned \<and>
   length (filter active (registry (snd (switchProfile ideal_env ''work'' no_options two_profiles_world)))) = 1 \<and>
   map name (registry (snd (switchProfile ideal_env ''work'' no_options two_profiles_world))) = [''work'', ''home'']"
proof -
  have d: "distinct (map name (registry two_profiles_world))"
    by (simp add: registry_two_profiles work_profile_def home_profile_def)
  have n: "map name (registry two_profiles_world) = [''work'', ''home'']"
    by (simp add: registry_two_profiles work_profile_def home_profile_def)
  from single_active[where env = ideal_env and nm = "''play''" and options = no_options
        and w = two_profiles_world]
    single_active[where env = ideal_env and nm = "''work''" and options = no_options
        and w = two_profiles_world] create_play_returns switch_work_returns d n
  show ?thesis by simp
qed

text \<open>
  C2. Starting from a registry whose names are unique (the empty one, for instance),
  every sequence of \<open>createProfile\<close> calls, in any environments, leaves a registry
  whose names are unique. A \<open>createProfile\<close> with a name the registry already holds
  exits with code 1 and changes nothing but the log, which gets the duplicate-name
  error.
\<close>

theorem create_unique_names:
  "(distinct (map name (registry w)) \<longrightarrow> distinct (map name (registry (run_creates cs w)))) \<and>
   (nm \<in> name ` set (registry w) \<longrightarrow>
      createProfile env nm options w = (Exited 1, emit [Error (DuplicateName nm)] w))"
  using run_creates_distinct[of w cs] createProfile_duplicate[of nm w env options] by blast

theorem create_unique_names_witness:
  "distinct (map name (registry two_profiles_world)) \<and>
   distinct (map name (registry (run_creates
      [(ideal_env, ''play'', no_options), (ideal_env, ''work'', no_options),
       (ideal_env, ''play'', no_options)] two_profiles_world))) \<and>
   ''home'' \<in> name ` set (registry two_profiles_world) \<and>
   createProfile ideal_env ''home'' no_options two_profiles_world =
     (Exited 1, emit [Error (DuplicateName ''home'')] two_profiles_world)"
proof -
  have d: "distinct (map name (registry two_profiles_world))"
    by (simp add: registry_two_profiles work_profile_def home_profile_def)
  have m: "''home'' \<in> name ` set (registry two_profiles_world)"
    by (simp add: registry_two_profiles home_profile_def)
  from create_unique_names[where w = two_profiles_world and nm = "''home''" and env = ideal_env
      and options = no_options
      and cs = "[(ideal_env, ''play'', no_options), (ideal_env, ''work'', no_options),
                 (ideal_env, ''play'', no_options)]"] d m
  show ?thesis by blast
qed


section \<open>Stored names\<close>

lemma allowed_sanitize: "list_all allowed_char (sanitize s)"
  by (induction s) (auto simp: sanitize_def allowed_char_def)

lemma digit_char_allowed: "d < 10 \<Longrightarrow> allowed_char (digit_char d)"
proof -
  assume d: "d < 10"
  have "list_all allowed_char ''0123456789''"
    by (simp add: allowed_char_def is_digit_def)
  with d show ?thesis
    by (simp add: digit_char_def list_all_length)
qed

lemma allowed_decimal: "list_all allowed_char (decimal n)"
proof (induction n rule: decimal.induct)
  case (1 n)
  show ?case
  proof (cases "n < 10")
    case True
    then show ?thesis by (subst decimal.simps) (simp add: digit_char_allowed)
  next
    case False
    with 1 show ?thesis by (subst decimal.simps) (simp add: digit_char_allowed)
  qed
qed

lemma decimal_nonempty: "decimal n \<noteq> []"
  by (subst decimal.simps) simp

lemma allowed_imported:
  "list_all allowed_char (''imported-'' @ decimal n)"
  "list_all allowed_char (''imported-profile-'' @ decimal n)"
  by (simp_all add: allowed_decimal allowed_char_def is_lower_def is_upper_def is_digit_def)

lemma import_name_allowed:
  "list_all allowed_char (import_name env filepath t) \<and> import_name env filepath t \<noteq> []"
  using allowed_imported[of "now_ms env"]
  by (simp add: import_name_def Let_def allowed_sanitize split: option.splits)

lemma set_splice1: "set (splice1 i xs) \<subseteq> set xs"
  by (auto simp: splice1_def dest: in_set_takeD in_set_dropD)

lemma importProfile_registry:
  assumes ok: "fst (importProfile env filepath w) = Returned"
  shows "\<exists>t ps. archives w filepath \<noteq> None \<and> fst (unzipArchive env filepath w) = Some t \<and>
           set ps \<subseteq> set (registry w) \<and>
           registry (snd (importProfile env filepath w)) =
             ps @ [\<lparr>name = import_name env filepath t, active = False, lastModified = now_iso env,
                    zipFile = join (root env) (import_name env filepath t @ ''-'' @ uuid env @ ''.zip'')\<rparr>]"
proof -
  from ok have ex: "archives w filepath \<noteq> None"
    by (auto simp: importProfile_def split: if_splits)
  obtain r w1 where u: "unzipArchive env filepath w = (r, w1)" by (cases "unzipArchive env filepath w")
  with ok ex obtain t where t: "r = Some t"
    by (cases r) (auto simp: importProfile_def)
  let ?n = "import_name env filepath t"
  have reg1: "registry w1 = registry w"
    using unzip_frame(3)[of env filepath w] u by (simp add: registry_def)
  show ?thesis
  proof (cases "findIndex (\<lambda>p. name p = ?n) (registry w)")
    case None
    with ok ex u t reg1 have "registry (snd (importProfile env filepath w)) =
        registry w @ [\<lparr>name = ?n, active = False, lastModified = now_iso env,
                    zipFile = join (root env) (?n @ ''-'' @ uuid env @ ''.zip'')\<rparr>]"
      by (simp add: importProfile_def Let_def case_prod_beta readProfiles_fst split: if_splits)
    with ex u t show ?thesis by auto
  next
    case (Some i)
    with ok ex u t reg1 have "registry (snd (importProfile env filepath w)) =
        splice1 i (registry w) @ [\<lparr>name = ?n, active = False, lastModified = now_iso env,
                    zipFile = join (root env) (?n @ ''-'' @ uuid env @ ''.zip'')\<rparr>]"
      by (simp add: importProfile_def Let_def case_prod_beta readProfiles_fst split: if_splits)
    with ex u t set_splice1[of i "registry w"] show ?thesis by auto
  qed
qed

lemma create_spaced_returns:
  "fst (createProfile ideal_env ''my profile'' no_options empty_world) = Returned"
  by (simp add: run_defs fixture_defs)

lemma import_name_example: "import_name ideal_env export_path work_archive = ''My_Work''"
  by (simp add: import_name_def export_path_def basename_def endsWith_def strip_profile_prefix_def
      strip_export_suffix_def matches_def timestamp_pattern_def same_letter_def is_upper_def
      is_lower_def is_digit_def sanitize_def allowed_char_def work_archive_def METADATA_FILE_def
      ideal_env_def Let_def)

lemma import_returns: "fst (importProfile ideal_env export_path import_world) = Returned"
  by (simp add: importProfile_def import_name_example unzipArchive_def readProfiles_def
      zipDirectoryContents_def writeProfiles_def emit_def Let_def import_world_def fixture_defs
      export_path_def[symmetric])

text \<open>
  What \<open>importProfile\<close> registers has a non-empty name made only of letters, digits,
  hyphen and underscore, whatever the file name, the metadata and the user's answer
  are: every name it derives goes through \<open>sanitize\<close>.
\<close>

lemma import_stores_sanitized:
  assumes "fst (importProfile env filepath w) = Returned"
  shows "\<exists>ps p. registry (snd (importProfile env filepath w)) = ps @ [p] \<and>
               set ps \<subseteq> set (registry w) \<and>
               name p \<noteq> [] \<and> list_all allowed_char (name p)"
  using importProfile_registry[OF assms] import_name_allowed[of env filepath]
  by fastforce

lemma import_stores_sanitized_example:
  "fst (importProfile ideal_env export_path import_world) = Returned \<and>
   (\<exists>ps p. registry (snd (importProfile ideal_env export_path import_world)) = ps @ [p] \<and>
            set ps \<subseteq> set (registry import_world) \<and>
            name p \<noteq> [] \<and> list_all allowed_char (name p))"
  using import_stores_sanitized[OF import_returns] import_returns by blast

text \<open>\<open>createProfile\<close> registers the name exactly as it is given.\<close>

lemma create_stores_given_name:
  assumes "fst (createProfile env nm options w) = Returned"
  shows "\<exists>ps p. registry (snd (createProfile env nm options w)) = ps @ [p] \<and>
               map name ps = map name (registry w) \<and> name p = nm"
  using assms by (simp add: createProfile_registry new_profile_def comp_def)

lemma create_spaced_name:
  "fst (createProfile ideal_env ''my profile'' no_options empty_world) = Returned \<and>
   map name (registry (snd (createProfile ideal_env ''my profile'' no_options empty_world)))
     = [''my profile''] \<and>
   \<not> list_all allowed_char ''my profile''"
proof -
  have r: "registry empty_world = []" by (simp add: registry_def empty_world_def)
  have "\<not> allowed_char CHR '' ''"
    by (simp add: allowed_char_def is_lower_def is_upper_def is_digit_def)
  then have "\<not> list_all allowed_char ''my profile''" by simp
  with create_spaced_returns r show ?thesis
    by (simp add: createProfile_registry new_profile_def)
qed

lemma create_dotted_run:
  "createProfile ideal_env ''../x'' no_options empty_world =
     (Returned,
      (emit [Warning (SourceMissing (Live Share)), Warning (SourceMissing (Live Config)),
             Warning DconfDumpFailed, Warning EmptySource] empty_world)
        \<lparr>archives := (archives empty_world)(''/x-u1.zip'' \<mapsto> empty_tree),
         db := Some (Serialized
                 [\<lparr>name = ''../x'', active = True, lastModified = ''2025-01-01T00:00:00.000Z'',
                   zipFile = ''/x-u1.zip''\<rparr>])\<rparr>)"
  by (simp add: run_defs fixture_defs join_def normalize_path_def empty_tree_def)

text \<open>
  Claim C7. \<open>createProfile\<close> stores the profile name as the user typed it, where
  \<open>importProfile\<close> stores \<open>sanitize\<close> of every name it derives. With the name \<^verbatim>\<open>../x\<close> the
  registry holds \<^verbatim>\<open>../x\<close>, which has characters outside letters, digits, hyphen and
  underscore (the sanitized name would be \<^verbatim>\<open>___x\<close>), and the profile archive is written
  to \<^verbatim>\<open>/x-u1.zip\<close>, outside the profiles directory \<^verbatim>\<open>/p\<close>.
\<close>

theorem create_stores_raw_name:
  "fst (createProfile ideal_env ''../x'' no_options empty_world) = Returned \<and>
   registry (snd (createProfile ideal_env ''../x'' no_options empty_world)) =
     [\<lparr>name = ''../x'', active = True, lastModified = ''2025-01-01T00:00:00.000Z'',
       zipFile = ''/x-u1.zip''\<rparr>] \<and>
   \<not> list_all allowed_char ''../x'' \<and>
   sanitize ''../x'' = ''___x'' \<and>
   root ideal_env = ''/p'' \<and>
   archives empty_world ''/x-u1.zip'' = None \<and>
   archives (snd (createProfile ideal_env ''../x'' no_options empty_world)) ''/x-u1.zip''
     = Some empty_tree"
proof -
  have a: "\<not> list_all allowed_char ''../x''"
    by (simp add: allowed_char_def is_lower_def is_upper_def is_digit_def)
  have s: "sanitize ''../x'' = ''___x''"
    by (simp add: sanitize_def allowed_char_def is_lower_def is_upper_def is_digit_def)
  have f: "fst (createProfile ideal_env ''../x'' no_options empty_world) = Returned"
    by (simp add: create_dotted_run)
  have g: "registry (snd (createProfile ideal_env ''../x'' no_options empty_world)) =
     [\<lparr>name = ''../x'', active = True, lastModified = ''2025-01-01T00:00:00.000Z'',
       zipFile = ''/x-u1.zip''\<rparr>]"
    by (simp add: create_dotted_run registry_def)
  have h: "root ideal_env = ''/p''" by (simp add: ideal_env_def)
  have k: "archives empty_world ''/x-u1.zip'' = None" by (simp add: empty_world_def)
  have m: "archives (snd (createProfile ideal_env ''../x'' no_options empty_world)) ''/x-u1.zip''
     = Some empty_tree"
    by (simp add: create_dotted_run)
  from f g a s h k m show ?thesis by (intro conjI)
qed


section \<open>Capture and apply\<close>

text \<open>
  C5. When the archive does not exist, or \<^verbatim>\<open>unzip\<close> fails on it, \<open>restoreSettingsFromZip\<close>
  returns \<open>False\<close> and the world is the one before with one error line added: the
  live directories and the dconf namespace are as they were. This holds for a switch
  and for a restore, with or without the backup.
\<close>

theorem restore_extraction_failure:
  assumes "archives w zipFilePath = None \<or>
           (\<exists>a. archives w zipFilePath = Some a \<and> unzip_tool env zipFilePath a = None)"
  shows "restoreSettingsFromZip env zipFilePath isProfileSwitch options skipBackup w =
           (False, emit [Error (if archives w zipFilePath = None
                                then ArchiveFileNotFound zipFilePath
                                else UnzipFailed zipFilePath)] w) \<and>
         live (snd (restoreSettingsFromZip env zipFilePath isProfileSwitch options skipBackup w)) = live w \<and>
         dconf_ns (snd (restoreSettingsFromZip env zipFilePath isProfileSwitch options skipBackup w)) = dconf_ns w"
  using assms
  by (auto simp add: restoreSettingsFromZip_def unzipArchive_def Let_def)

theorem restore_extraction_failure_witness:
  "(archives two_profiles_world ''/p/work-u0.zip'' = None \<or>
      (\<exists>a. archives two_profiles_world ''/p/work-u0.zip'' = Some a \<and>
           unzip_tool broken_unzip_env ''/p/work-u0.zip'' a = None)) \<and>
   restoreSettingsFromZip broken_unzip_env ''/p/work-u0.zip'' False None False two_profiles_world =
     (False, emit [Error (UnzipFailed ''/p/work-u0.zip'')] two_profiles_world) \<and>
   live (snd (restoreSettingsFromZip broken_unzip_env ''/p/work-u0.zip'' False None False
                two_profiles_world)) = live two_profiles_world"
proof -
  have a: "archives two_profiles_world ''/p/work-u0.zip'' = Some work_archive"
    by (simp add: two_profiles_world_def empty_world_def)
  have u: "unzip_tool broken_unzip_env ''/p/work-u0.zip'' work_archive = None"
    by (simp add: broken_unzip_env_def)
  have h: "archives two_profiles_world ''/p/work-u0.zip'' = None \<or>
      (\<exists>a. archives two_profiles_world ''/p/work-u0.zip'' = Some a \<and>
           unzip_tool broken_unzip_env ''/p/work-u0.zip'' a = None)"
    using a u by simp
  from restore_extraction_failure[OF h, of False None False] a h show ?thesis by simp
qed

text \<open>
  For a scratch directory that exists and is empty, \<open>zipDirectoryContents\<close> logs the
  warning and then returns what \<^verbatim>\<open>zip\<close> reports: \<open>True\<close> with the archive \<^verbatim>\<open>zip\<close> wrote
  when it exits 0, and \<open>False\<close> with an error line when it does not.
\<close>

lemma zipDirectoryContents_empty:
  assumes "tdirs t = []" and "tfiles t = []"
  shows "zipDirectoryContents env (Some t) zipFilePath w =
          (case zip_tool env t zipFilePath (archives w zipFilePath) of
             None \<Rightarrow> (False, emit [Warning EmptySource, Error (ZipFailed zipFilePath)] w)
           | Some a \<Rightarrow> (True, (emit [Warning EmptySource] w)
                                 \<lparr>archives := (archives w)(zipFilePath \<mapsto> a)\<rparr>))"
  using assms by (simp add: zipDirectoryContents_def Let_def split: option.splits)

text \<open>
  Claim C8. Every source location is absent and there are no dconf settings, so the
  scratch directory stays empty; \<^verbatim>\<open>zip\<close> exits non-zero when it has nothing to add.
  \<open>zipDirectoryContents\<close> logs the warning that the archive will be empty, and then the
  error that the archive could not be created, and returns \<open>False\<close>: no archive is
  written, a manual backup returns no file, and \<open>createProfile\<close> exits with status 1
  and registers nothing.
\<close>

theorem empty_capture_fails:
  "live empty_world = (\<lambda>l. None) \<and>
   stage nothing_to_do_env (componentOptions no_options) empty_world =
     (empty_tree, [Warning (SourceMissing (Live Share)), Warning (SourceMissing (Live Config)),
                   Warning DconfDumpFailed]) \<and>
   zipDirectoryContents nothing_to_do_env (Some empty_tree) ''/p/backup/b.zip'' empty_world =
     (False, emit [Warning EmptySource, Error (ZipFailed ''/p/backup/b.zip'')] empty_world) \<and>
   fst (createTimestampedBackup nothing_to_do_env (BACKUP_DIR nothing_to_do_env) ''manual-backup''
          (Some (componentOptions no_options)) empty_world) = None \<and>
   archives (snd (createTimestampedBackup nothing_to_do_env (BACKUP_DIR nothing_to_do_env)
          ''manual-backup'' (Some (componentOptions no_options)) empty_world)) = (\<lambda>path. None) \<and>
   createProfile nothing_to_do_env ''first'' no_options empty_world =
     (Exited 1,
      emit [Warning (SourceMissing (Live Share)), Warning (SourceMissing (Live Config)),
            Warning DconfDumpFailed, Warning EmptySource, Error (ZipFailed ''/p/first-u1.zip''),
            Error CreationFailed] empty_world)"
  by (simp add: run_defs fixture_defs nothing_to_do_env_def empty_tree_def join_def
      normalize_path_def)


section \<open>Selecting a backup\<close>

lemmas parseInt_defs =
  parseInt_def strip_sign_def strip_radix_def digits_value_def is_radix_digit_def
  is_space_def radix_val_def hex_val_def is_digit_def Let_def

lemma parseInt_zero: "parseInt ''0'' = Some 0"
  by (simp add: parseInt_defs)

lemma parseInt_empty: "parseInt '''' = None"
  by (simp add: parseInt_defs)

lemma parseInt_1abc: "parseInt ''1abc'' = Some 1"
  by (simp add: parseInt_defs)

lemma digit_not_space: "is_digit c \<Longrightarrow> \<not> is_space c"
  by (auto simp: is_digit_def is_space_def)

lemma digit_not_sign: "is_digit c \<Longrightarrow> c \<noteq> CHR ''-'' \<and> c \<noteq> CHR ''+''"
  by (auto simp: is_digit_def)

lemma digit_not_x: "is_digit c \<Longrightarrow> c \<noteq> CHR ''x'' \<and> c \<noteq> CHR ''X''"
  by (auto simp: is_digit_def)

lemma digit_radix: "is_digit c \<Longrightarrow> is_radix_digit 10 c"
  by (auto simp: is_digit_def is_radix_digit_def radix_val_def hex_val_def)

lemma digit_cases:
  assumes "d < (10::nat)"
  obtains "d = 0" | "d = 1" | "d = 2" | "d = 3" | "d = 4" | "d = 5" | "d = 6" | "d = 7"
    | "d = 8" | "d = 9"
  using assms by atomize_elim arith

lemma digit_char_code: "d < 10 \<Longrightarrow> (of_char (digit_char d) :: nat) = 48 + d"
  by (cases d rule: digit_cases) (simp_all add: digit_char_def)

lemma digit_char_digit: "d < 10 \<Longrightarrow> is_digit (digit_char d)"
  by (simp add: is_digit_def digit_char_code)

lemma digit_char_val: "d < 10 \<Longrightarrow> radix_val 10 (digit_char d) = Some d"
  by (simp add: radix_val_def hex_val_def digit_char_digit digit_char_code)

lemma decimal_digits: "\<forall>c\<in>set (decimal n). is_digit c"
proof (induction n rule: decimal.induct)
  case (1 n)
  show ?case
  proof (cases "n < 10")
    case True
    then show ?thesis
      by (subst decimal.simps) (simp add: digit_char_digit)
  next
    case False
    with 1 show ?thesis
      by (subst decimal.simps) (simp add: digit_char_digit)
  qed
qed

lemma decimal_value: "digits_value 10 (decimal n) = n"
proof (induction n rule: decimal.induct)
  case (1 n)
  show ?case
  proof (cases "n < 10")
    case True
    then show ?thesis
      by (subst decimal.simps) (simp add: digits_value_def digit_char_val)
  next
    case False
    with 1 show ?thesis
      by (subst decimal.simps) (simp add: digits_value_def digit_char_val)
  qed
qed

lemma takeWhile_all: "\<forall>x\<in>set xs. P x \<Longrightarrow> takeWhile P xs = xs"
  by (induction xs) auto

lemma digits_dropWhile: "\<forall>c\<in>set s. is_digit c \<Longrightarrow> dropWhile is_space s = s"
  by (cases s) (auto simp: digit_not_space)

lemma digits_strip_sign: "\<forall>c\<in>set s. is_digit c \<Longrightarrow> strip_sign s = (False, s)"
  by (cases s) (auto simp: strip_sign_def dest: digit_not_sign)

lemma digits_strip_radix: "\<forall>c\<in>set s. is_digit c \<Longrightarrow> strip_radix s = (10, s)"
proof (cases s)
  case Nil
  then show ?thesis by (simp add: strip_radix_def)
next
  case (Cons a r)
  assume d: "\<forall>c\<in>set s. is_digit c"
  show ?thesis
  proof (cases r)
    case Nil
    with Cons show ?thesis by (simp add: strip_radix_def)
  next
    case (Cons b r')
    with \<open>s = a # r\<close> d have "is_digit b" by simp
    from digit_not_x[OF this] Cons \<open>s = a # r\<close> show ?thesis
      by (simp add: strip_radix_def)
  qed
qed

lemma parseInt_digits:
  assumes "\<forall>c\<in>set s. is_digit c" and "s \<noteq> []"
  shows "parseInt s = Some (int (digits_value 10 s))"
proof -
  have tw: "takeWhile (is_radix_digit 10) s = s"
    using assms(1) by (intro takeWhile_all) (simp add: digit_radix)
  from assms show ?thesis
    by (simp add: parseInt_def Let_def tw digits_dropWhile digits_strip_sign digits_strip_radix)
qed

lemma parseInt_decimal: "parseInt (decimal n) = Some (int n)"
  using parseInt_digits[OF decimal_digits decimal_nonempty, of n] by (simp add: decimal_value)


lemma compare_le: "backup_compare env a b \<le> 0 \<Longrightarrow> newest_first a b"
  by (auto simp: backup_compare_def newest_first_def split: option.splits)

lemma compare_gt: "\<not> backup_compare env a b \<le> 0 \<Longrightarrow> newest_first b a"
  by (auto simp: backup_compare_def newest_first_def split: option.splits)

lemma newest_first_trans: "newest_first a b \<Longrightarrow> newest_first b c \<Longrightarrow> newest_first a c"
  by (auto simp: newest_first_def split: option.splits)

lemma set_insert_by: "set (insert_by cmp x ys) = insert x (set ys)"
  by (induction ys) auto

lemma mset_insert_by: "mset (insert_by cmp x ys) = add_mset x (mset ys)"
  by (induction ys) auto

lemma mset_sort_by: "mset (sort_by cmp xs) = mset xs"
  by (induction xs) (auto simp: sort_by_def mset_insert_by)

lemma sorted_insert_by:
  "sorted_wrt newest_first ys \<Longrightarrow> sorted_wrt newest_first (insert_by (backup_compare env) x ys)"
proof (induction ys)
  case Nil
  then show ?case by simp
next
  case (Cons y ys)
  show ?case
  proof (cases "backup_compare env x y \<le> 0")
    case True
    then have xy: "newest_first x y" by (rule compare_le)
    with Cons.prems have "\<forall>z\<in>set ys. newest_first x z"
      by (auto intro: newest_first_trans)
    with True xy Cons.prems show ?thesis by simp
  next
    case False
    then have yx: "newest_first y x" by (rule compare_gt)
    with False Cons show ?thesis by (auto simp: set_insert_by)
  qed
qed

lemma sorted_sort_by: "sorted_wrt newest_first (sort_by (backup_compare env) xs)"
  by (induction xs) (auto simp: sort_by_def sorted_insert_by)

lemma sorted_listing: "sorted_wrt newest_first (backup_listing env w)"
  by (simp add: backup_listing_def sorted_sort_by)

lemmas listing_defs =
  backup_listing_def scan_backups_def endsWith_def backup_date_def matches_def
  timestamp_pattern_def is_digit_def substring_def sort_by_def BACKUP_DIR_def
  AUTO_BACKUP_DIR_def join_def normalize_path_def Let_def

lemma one_backup_listing:
  "backup_listing (typing_env input) one_backup_world =
     [\<lparr>filename = ''manual-backup-2025-01-02T03-04-05-678Z.zip'', date = None,
       fullPath = ''/p/backup/manual-backup-2025-01-02T03-04-05-678Z.zip'', kind = ''Manual''\<rparr>]"
  by (simp add: listing_defs one_backup_world_def typing_env_def ideal_env_def empty_world_def)

text \<open>
  C9. With a backup directory present and at least one backup listed,
  \<open>selectBackupFile\<close> reads the answer with \<^verbatim>\<open>parseInt\<close> and returns at once, without asking
  again. No answer (\<^verbatim>\<open>prompt\<close> gives \<^verbatim>\<open>null\<close>) and an answer read as 0, such as \<^verbatim>\<open>0\<close>,
  cancel: no selection, nothing logged. An answer that \<^verbatim>\<open>parseInt\<close> cannot read (the empty
  string is one) or reads as a negative number or a number above the number of
  backups gives no selection and the invalid-selection error. An answer read as \<open>k\<close>
  with \<open>1 \<le> k \<le> n\<close>, such as the decimal numeral of \<open>k\<close>, returns the path of the
  \<open>k\<close>-th entry of the listing. The listing holds exactly the scanned files and is
  newest first: dated entries by falling date, undated ones after them.
\<close>

theorem select_backup:
  assumes dirs: "manual_listing w \<noteq> None \<or> auto_listing w \<noteq> None"
    and files: "backup_listing env w \<noteq> []"
  shows "(prompt_input env = None \<longrightarrow> selectBackupFile env w = (None, w)) \<and>
         (prompt_input env = Some input \<and> parseInt input = Some 0 \<longrightarrow>
            selectBackupFile env w = (None, w)) \<and>
         (prompt_input env = Some input \<and>
            (parseInt input = None \<or>
             (\<exists>k. parseInt input = Some k \<and> (k < 0 \<or> int (length (backup_listing env w)) < k))) \<longrightarrow>
            selectBackupFile env w =
              (None, emit [Error (InvalidSelection (length (backup_listing env w)))] w)) \<and>
         (prompt_input env = Some input \<and> parseInt input = Some (int k) \<and>
            1 \<le> k \<and> k \<le> length (backup_listing env w) \<longrightarrow>
            selectBackupFile env w = (Some (fullPath (backup_listing env w ! (k - 1))), w)) \<and>
         parseInt ''0'' = Some 0 \<and> parseInt '''' = None \<and> parseInt (decimal k) = Some (int k) \<and>
         sorted_wrt newest_first (backup_listing env w) \<and>
         mset (backup_listing env w) =
           mset (case manual_listing w of None \<Rightarrow> []
                 | Some es \<Rightarrow> scan_backups env (BACKUP_DIR env) ''Manual'' es) +
           mset (case auto_listing w of None \<Rightarrow> []
                 | Some es \<Rightarrow> scan_backups env (AUTO_BACKUP_DIR env) ''Auto'' es)"
proof -
  have perm: "mset (backup_listing env w) =
           mset (case manual_listing w of None \<Rightarrow> []
                 | Some es \<Rightarrow> scan_backups env (BACKUP_DIR env) ''Manual'' es) +
           mset (case auto_listing w of None \<Rightarrow> []
                 | Some es \<Rightarrow> scan_backups env (AUTO_BACKUP_DIR env) ''Auto'' es)"
    by (simp add: backup_listing_def mset_sort_by)
  have sel: "selectBackupFile env w =
    (case prompt_input env of
       None \<Rightarrow> (None, w)
     | Some input \<Rightarrow>
        (case parseInt input of
           None \<Rightarrow> (None, emit [Error (InvalidSelection (length (backup_listing env w)))] w)
         | Some selection \<Rightarrow>
            if selection < 0 \<or> selection > int (length (backup_listing env w))
            then (None, emit [Error (InvalidSelection (length (backup_listing env w)))] w)
            else if selection = 0 then (None, w)
            else (Some (fullPath (backup_listing env w ! nat (selection - 1))), w)))"
    using dirs files by (auto simp: selectBackupFile_def Let_def)
  have idx: "1 \<le> k \<Longrightarrow> nat (int k - 1) = k - 1" by simp
  show ?thesis
    using idx perm
    by (auto simp: sel parseInt_zero parseInt_empty parseInt_decimal sorted_listing)
qed

theorem select_backup_witness:
  "manual_listing one_backup_world =
     Some [(''manual-backup-2025-01-02T03-04-05-678Z.zip'', True)] \<and>
   backup_listing (typing_env ''1'') one_backup_world \<noteq> [] \<and>
   prompt_input (typing_env ''1'') = Some ''1'' \<and> parseInt ''1'' = Some (int 1) \<and>
   selectBackupFile (typing_env ''1'') one_backup_world =
     (Some ''/p/backup/manual-backup-2025-01-02T03-04-05-678Z.zip'', one_backup_world) \<and>
   prompt_input (typing_env ''0'') = Some ''0'' \<and>
   selectBackupFile (typing_env ''0'') one_backup_world = (None, one_backup_world) \<and>
   prompt_input (typing_env ''7'') = Some ''7'' \<and> parseInt ''7'' = Some 7 \<and>
   selectBackupFile (typing_env ''7'') one_backup_world =
     (None, emit [Error (InvalidSelection 1)] one_backup_world)"
proof -
  have d: "manual_listing one_backup_world \<noteq> None \<or> auto_listing one_backup_world \<noteq> None"
    by (simp add: one_backup_world_def empty_world_def)
  have f: "\<And>input. backup_listing (typing_env input) one_backup_world \<noteq> []"
    by (simp add: one_backup_listing)
  have p: "\<And>input. prompt_input (typing_env input) = Some input"
    by (simp add: typing_env_def)
  have n1: "parseInt ''1'' = Some (int 1)" and n7: "parseInt ''7'' = Some 7"
    by (simp_all add: parseInt_defs)
  have m: "manual_listing one_backup_world =
     Some [(''manual-backup-2025-01-02T03-04-05-678Z.zip'', True)]"
    by (simp add: one_backup_world_def empty_world_def)
  from select_backup[OF d f, where input = "''1''" and k = 1]
    select_backup[OF d f, where input = "''0''" and k = 1]
    select_backup[OF d f, where input = "''7''" and k = 1]
    m f p n1 n7 parseInt_zero
  show ?thesis by (simp add: one_backup_listing)
qed

theorem select_backup_counterexample:
  "prompt_input (typing_env ''1abc'') = Some ''1abc'' \<and>
   selectBackupFile (typing_env ''1abc'') one_backup_world =
     (Some ''/p/backup/manual-backup-2025-01-02T03-04-05-678Z.zip'', one_backup_world)"
proof -
  have d: "manual_listing one_backup_world \<noteq> None"
    by (simp add: one_backup_world_def empty_world_def)
  have p: "prompt_input (typing_env ''1abc'') = Some ''1abc''"
    by (simp add: typing_env_def)
  from d p show ?thesis
    by (simp add: selectBackupFile_def one_backup_listing parseInt_1abc Let_def)
qed


section \<open>Round trip of capture and apply\<close>


lemma update_fresh: "n \<notin> fst ` set d \<Longrightarrow> AList.update n e d = d @ [(n, e)]"
  by (induction d) auto

lemma map_of_fresh: "n \<notin> fst ` set d \<Longrightarrow> map_of d n = None"
  by (simp add: map_of_eq_None_iff)

lemma copy_loop_into_fresh:
  assumes "distinct (map fst es)" and "fst ` set es \<inter> fst ` set d = {}"
    and "\<forall>(n, e)\<in>set es. std_copy env src dst n e None = Copied e"
  shows "copy_loop env src dst es (d, lg) = (d @ es, lg)"
  using assms
proof (induction es arbitrary: d)
  case Nil
  then show ?case by simp
next
  case (Cons x es)
  obtain n e where x: "x = (n, e)" by (cases x)
  from Cons.prems(2) x have fresh: "n \<notin> fst ` set d" by auto
  from Cons.prems(3) x have cp: "std_copy env src dst n e None = Copied e" by simp
  have d': "fst ` set es \<inter> fst ` set (d @ [(n, e)]) = {}"
    using Cons.prems(1,2) x by auto
  from Cons.prems(1) have "distinct (map fst es)" by simp
  from Cons.IH[OF this d'] Cons.prems(3)
  have "copy_loop env src dst es (d @ [(n, e)], lg) = ((d @ [(n, e)]) @ es, lg)" by simp
  with fresh cp x show ?case by (simp add: map_of_fresh update_fresh)
qed

lemma copy_loop_over_same:
  assumes "distinct (map fst d)" and "set es \<subseteq> set d"
    and "\<forall>(n, e)\<in>set es. std_copy env src dst n e (Some e) = Copied e"
  shows "copy_loop env src dst es (d, lg) = (d, lg)"
  using assms
proof (induction es)
  case Nil
  then show ?case by simp
next
  case (Cons x es)
  obtain n e where x: "x = (n, e)" by (cases x)
  with Cons.prems(2) have mem: "(n, e) \<in> set d" by simp
  with Cons.prems(1) have look: "map_of d n = Some e" by simp
  then have upd: "AList.update n e d = d" by (rule AList.update_triv)
  from Cons.prems(3) x have cp: "std_copy env src dst n e (Some e) = Copied e" by simp
  from Cons.IH Cons.prems have "copy_loop env src dst es (d, lg) = (d, lg)" by simp
  with look upd cp x show ?case by simp
qed

lemma copy_into_absent:
  assumes "distinct (map fst es)"
    and "\<forall>(n, e)\<in>set es. std_copy env src dst n e None = Copied e"
  shows "copyDirectoryContents env src dst (Some es) None = (Some es, [])"
  using copy_loop_into_fresh[OF assms(1) _ assms(2), of "[]" "[]"]
  by (simp add: copyDirectoryContents_def)

lemma copy_into_empty:
  assumes "distinct (map fst es)"
    and "\<forall>(n, e)\<in>set es. std_copy env src dst n e None = Copied e"
  shows "copyDirectoryContents env src dst (Some es) (Some []) = (Some es, [])"
  using copy_loop_into_fresh[OF assms(1) _ assms(2), of "[]" "[]"]
  by (simp add: copyDirectoryContents_def)

lemma copy_over_same:
  assumes "distinct (map fst es)"
    and "\<forall>(n, e)\<in>set es. std_copy env src dst n e (Some e) = Copied e"
  shows "copyDirectoryContents env src dst (Some es) (Some es) = (Some es, [])"
  using copy_loop_over_same[OF assms(1) _ assms(2), of "[]"]
  by (simp add: copyDirectoryContents_def)

lemma copy_from_absent: "fst (copyDirectoryContents env src dst None d) = d"
  by (simp add: copyDirectoryContents_def)

lemma copy_result_some:
  "\<exists>d. fst (copyDirectoryContents env src dst (Some es) old) = Some d"
  by (simp add: copyDirectoryContents_def case_prod_beta)


text \<open>What a sub-directory of the staged tree holds.\<close>

lemma stageCore_tdirs:
  "map_of (tdirs (fst (stageCore env l sub w acc))) s =
     (if s = sub
      then fst (copyDirectoryContents env (Live l) (Scratch sub) (live w l) (map_of (tdirs (fst acc)) sub))
      else map_of (tdirs (fst acc)) s)"
proof (cases "live w l")
  case None
  then show ?thesis
    by (auto simp: stageCore_def case_prod_beta copyDirectoryContents_def AList.update_conv'
        split: option.splits)
next
  case (Some es)
  from copy_result_some[of env "Live l" "Scratch sub" es "map_of (tdirs (fst acc)) sub"]
  obtain d where d: "fst (copyDirectoryContents env (Live l) (Scratch sub) (Some es)
                       (map_of (tdirs (fst acc)) sub)) = Some d" by blast
  with Some show ?thesis
    by (simp add: stageCore_def case_prod_beta AList.update_conv')
qed

lemma stageLocation_tdirs:
  "map_of (tdirs (fst (stageLocation env b l sub w acc))) s =
     (if s = sub \<and> b \<and> live w l \<noteq> None
      then fst (copyDirectoryContents env (Live l) (Scratch sub) (live w l) (map_of (tdirs (fst acc)) sub))
      else map_of (tdirs (fst acc)) s)"
  by (simp add: stageLocation_def stageCore_tdirs copy_from_absent)

lemma stageDconf_tdirs: "tdirs (fst (stageDconf env co w acc)) = tdirs (fst acc)"
  by (simp add: stageDconf_def case_prod_beta)

lemma stage_tdirs:
  "map_of (tdirs (fst (stage env co w))) (sub_of l) =
     (if selected co l
      then fst (copyDirectoryContents env (Live l) (Scratch (sub_of l)) (live w l) None)
      else None)"
  by (cases l)
    (simp_all add: stage_def copyThemeIconAndFontDirectories_def copyThemeDirectories_def
      copyIconDirectories_def copyFontDirectories_def stageDconf_tdirs stageLocation_tdirs
      stageCore_tdirs copy_from_absent)


lemma stageCore_tfiles: "tfiles (fst (stageCore env l sub w acc)) = tfiles (fst acc)"
  by (simp add: stageCore_def case_prod_beta split: option.splits)

lemma stageLocation_tfiles: "tfiles (fst (stageLocation env b l sub w acc)) = tfiles (fst acc)"
  by (simp add: stageLocation_def stageCore_tfiles)

lemma stage_tfiles:
  "map_of (tfiles (fst (stage env co w))) DCONF_SETTINGS_FILE =
     (if dconf co \<and> dconf_dump_ok env \<and> dconf_ns w \<noteq> [] then Some (dconf_ns w) else None)"
  by (simp add: stage_def stageDconf_def case_prod_beta copyThemeIconAndFontDirectories_def
      copyThemeDirectories_def copyIconDirectories_def copyFontDirectories_def
      stageLocation_tfiles stageCore_tfiles AList.update_conv')

lemma wipe_live:
  "live (mkdir Config (mkdir Share (emptyDirIfExists Config (emptyDirIfExists Share w)))) l =
     (if l = Share \<or> l = Config then Some [] else live w l)"
  by (simp add: emptyDirIfExists_def mkdir_def)

lemma restoreInto_live:
  "live (restoreInto env l sub d w) =
     (live w)(l := fst (copyDirectoryContents env (Scratch sub) (Live l) (Some d) (live w l)))"
  by (simp add: restoreInto_def case_prod_beta)

lemma restoreCore_other:
  "l' \<noteq> l \<Longrightarrow> live (restoreCore env l sub m t w) l' = live w l'"
  by (simp add: restoreCore_def restoreInto_live split: option.splits)

lemma restoreCore_same:
  "live (restoreCore env l sub m t w) l =
     (case map_of (tdirs t) sub of
        None \<Rightarrow> live w l
      | Some d \<Rightarrow> fst (copyDirectoryContents env (Scratch sub) (Live l) (Some d) (live w l)))"
  by (simp add: restoreCore_def restoreInto_live split: option.splits)

lemma restoreLocation_other:
  "l' \<noteq> l \<Longrightarrow> live (restoreLocation env b l sub t w) l' = live w l'"
  by (simp add: restoreLocation_def restoreInto_live mkdir_def split: option.splits)

lemma restoreLocation_same:
  "live (restoreLocation env b l sub t w) l =
     (case map_of (tdirs t) sub of
        None \<Rightarrow> live w l
      | Some d \<Rightarrow>
         if b then fst (copyDirectoryContents env (Scratch sub) (Live l) (Some d)
                         (Some (case live w l of None \<Rightarrow> [] | Some x \<Rightarrow> x)))
         else live w l)"
  by (auto simp: restoreLocation_def restoreInto_live mkdir_def split: option.splits)

lemmas tif_defs =
  restoreThemeIconAndFontDirectories_def restoreThemeDirectories_def
  restoreIconDirectories_def restoreFontDirectories_def

lemma tif_core: "l = Share \<or> l = Config \<Longrightarrow>
  live (restoreThemeIconAndFontDirectories env t co w) l = live w l"
  by (auto simp: tif_defs restoreLocation_other)

lemma tif_theme:
  "l \<noteq> Share \<Longrightarrow> l \<noteq> Config \<Longrightarrow>
   live (restoreThemeIconAndFontDirectories env t co w) l =
     (case map_of (tdirs t) (sub_of l) of
        None \<Rightarrow> live w l
      | Some d \<Rightarrow>
         if selected co l
         then fst (copyDirectoryContents env (Scratch (sub_of l)) (Live l) (Some d)
                     (Some (case live w l of None \<Rightarrow> [] | Some x \<Rightarrow> x)))
         else live w l)"
  by (cases l)
    (simp_all add: tif_defs restoreLocation_other restoreLocation_same cong: option.case_cong if_cong)

text \<open>The live directory at \<open>l\<close> after the apply phase, from the extracted tree \<open>t\<close>.\<close>

lemma apply_live_core:
  assumes "l = Share \<or> l = Config"
  shows "live (restoreThemeIconAndFontDirectories env t co
           (restoreCore env Config ''config'' NoConfigInArchive t
             (restoreCore env Share ''share'' NoShareInArchive t
               (mkdir Config (mkdir Share (emptyDirIfExists Config (emptyDirIfExists Share w))))))) l =
     (case map_of (tdirs t) (sub_of l) of
        None \<Rightarrow> Some []
      | Some d \<Rightarrow> fst (copyDirectoryContents env (Scratch (sub_of l)) (Live l) (Some d) (Some [])))"
  using assms
  by (auto simp: tif_core restoreCore_other restoreCore_same wipe_live cong: option.case_cong)

lemma apply_live_theme:
  assumes "l \<noteq> Share" "l \<noteq> Config"
  shows "live (restoreThemeIconAndFontDirectories env t co
           (restoreCore env Config ''config'' NoConfigInArchive t
             (restoreCore env Share ''share'' NoShareInArchive t
               (mkdir Config (mkdir Share (emptyDirIfExists Config (emptyDirIfExists Share w))))))) l =
     (case map_of (tdirs t) (sub_of l) of
        None \<Rightarrow> live w l
      | Some d \<Rightarrow>
         if selected co l
         then fst (copyDirectoryContents env (Scratch (sub_of l)) (Live l) (Some d)
                     (Some (case live w l of None \<Rightarrow> [] | Some x \<Rightarrow> x)))
         else live w l)"
  using assms
  by (simp add: tif_theme restoreCore_other wipe_live cong: option.case_cong if_cong)

lemma restoreDconf_ns:
  "dconf_ns (restoreDconf env t co w) =
     (if dconf co
      then (case map_of (tfiles t) DCONF_SETTINGS_FILE of
              None \<Rightarrow> dconf_ns w
            | Some content \<Rightarrow>
               (if \<not> dconf_file_readable env \<or> trim content = []
                then (if dconf_reset_ok env then [] else dconf_ns w)
                else (case dconf_load env (if dconf_reset_ok env then [] else dconf_ns w) content of
                        Some s \<Rightarrow> s
                      | None \<Rightarrow> (if dconf_reset_ok env then [] else dconf_ns w))))
      else dconf_ns w)"
  by (simp add: restoreDconf_def Let_def split: option.splits)

text \<open>A restore whose extraction succeeds: the result, by phases.\<close>

lemma restore_extracted:
  assumes "archives w p = Some a" and "unzip_tool env p a = Some t"
  shows "restoreSettingsFromZip env p sw (Some co) sb w =
     (True,
      restoreDconf env t co
        (restoreThemeIconAndFontDirectories env t co
          (restoreCore env Config ''config'' NoConfigInArchive t
            (restoreCore env Share ''share'' NoShareInArchive t
              (mkdir Config (mkdir Share
                (emptyDirIfExists Config (emptyDirIfExists Share
                  (if \<not> sw \<and> \<not> sb then preRestoreBackup env co w else w)))))))))"
  using assms by (simp add: restoreSettingsFromZip_def unzipArchive_def Let_def)

lemma restore_live_core:
  assumes "archives w p = Some a" and "unzip_tool env p a = Some t" and "l = Share \<or> l = Config"
  shows "live (snd (restoreSettingsFromZip env p sw (Some co) sb w)) l =
     (case map_of (tdirs t) (sub_of l) of
        None \<Rightarrow> Some []
      | Some d \<Rightarrow> fst (copyDirectoryContents env (Scratch (sub_of l)) (Live l) (Some d) (Some [])))"
  by (simp add: restore_extracted[OF assms(1,2)] apply_live_core[OF assms(3)])

lemma restore_live_theme:
  assumes "archives w p = Some a" and "unzip_tool env p a = Some t"
    and "l \<noteq> Share" "l \<noteq> Config"
  shows "live (snd (restoreSettingsFromZip env p sw (Some co) sb w)) l =
     (case map_of (tdirs t) (sub_of l) of
        None \<Rightarrow> live w l
      | Some d \<Rightarrow>
         if selected co l
         then fst (copyDirectoryContents env (Scratch (sub_of l)) (Live l) (Some d)
                     (Some (case live w l of None \<Rightarrow> [] | Some x \<Rightarrow> x)))
         else live w l)"
  by (simp add: restore_extracted[OF assms(1,2)] apply_live_theme[OF assms(3,4)]
      cong: option.case_cong if_cong)

lemma restore_dconf:
  assumes "archives w p = Some a" and "unzip_tool env p a = Some t"
  shows "dconf_ns (snd (restoreSettingsFromZip env p sw (Some co) sb w)) =
     (if dconf co
      then (case map_of (tfiles t) DCONF_SETTINGS_FILE of
              None \<Rightarrow> dconf_ns w
            | Some content \<Rightarrow>
               (if \<not> dconf_file_readable env \<or> trim content = []
                then (if dconf_reset_ok env then [] else dconf_ns w)
                else (case dconf_load env (if dconf_reset_ok env then [] else dconf_ns w) content of
                        Some s \<Rightarrow> s
                      | None \<Rightarrow> (if dconf_reset_ok env then [] else dconf_ns w))))
      else dconf_ns w)"
  by (simp add: restore_extracted[OF assms(1,2)] restoreDconf_ns cong: option.case_cong if_cong)

text \<open>A capture whose \<^verbatim>\<open>zip\<close> succeeds.\<close>

lemma capture_zipped:
  assumes "zip_tool env (fst (stage env co w)) (backup_file env dir pfx)
             (archives w (backup_file env dir pfx)) = Some a"
  shows "fst (createTimestampedBackup env dir pfx (Some co) w) = Some (backup_file env dir pfx)"
    and "archives (snd (createTimestampedBackup env dir pfx (Some co) w)) (backup_file env dir pfx) = Some a"
  using assms
  by (simp_all add: createTimestampedBackup_def zipDirectoryContents_def Let_def case_prod_beta
      backup_file_def)

lemma capture_then_apply_zipped:
  assumes "zip_tool env (fst (stage env co w)) (backup_file env dir pfx)
             (archives w (backup_file env dir pfx)) = Some a"
  shows "capture_then_apply env dir pfx co sw sb w =
           restoreSettingsFromZip env (backup_file env dir pfx) sw (Some co) sb
             (snd (createTimestampedBackup env dir pfx (Some co) w))"
  using capture_zipped(1)[OF assms]
  by (simp add: capture_then_apply_def case_prod_beta)

lemma copy_loop_merge:
  assumes "distinct (map fst es)"
    and "\<forall>(n, e)\<in>set es. std_copy env src dst n e (map_of d n) = Copied e"
  shows "\<exists>d'. copy_loop env src dst es (d, lg) = (d', lg) \<and> map_of d' = map_of d ++ map_of es"
  using assms
proof (induction es arbitrary: d)
  case Nil
  then show ?case by simp
next
  case (Cons x es)
  obtain n e where x: "x = (n, e)" by (cases x)
  from Cons.prems(1) x have fresh: "n \<notin> fst ` set es" and dist: "distinct (map fst es)" by auto
  from Cons.prems(2) x have cp: "std_copy env src dst n e (map_of d n) = Copied e" by simp
  have step: "\<forall>(n', e')\<in>set es. std_copy env src dst n' e' (map_of (AList.update n e d) n') = Copied e'"
  proof (clarify)
    fix n' e' assume m: "(n', e') \<in> set es"
    with fresh have "n' \<noteq> n" by force
    with Cons.prems(2) m show "std_copy env src dst n' e' (map_of (AList.update n e d) n') = Copied e'"
      by (auto simp: AList.update_conv')
  qed
  from Cons.IH[OF dist step]
  obtain d' where d': "copy_loop env src dst es (AList.update n e d, lg) = (d', lg)"
    "map_of d' = map_of (AList.update n e d) ++ map_of es" by blast
  from fresh have none: "map_of es n = None" by (simp add: map_of_eq_None_iff)
  have "map_of d' = map_of d ++ map_of ((n, e) # es)"
    using d'(2) none
    by (auto simp: AList.update_conv' map_add_def fun_eq_iff split: option.splits)
  moreover have "copy_loop env src dst ((n, e) # es) (d, lg) = (d', lg)"
    using cp d'(1) by simp
  ultimately show ?case unfolding x by blast
qed

lemma copy_merge:
  assumes "distinct (map fst es)"
    and "\<forall>(n, e)\<in>set es. std_copy env src dst n e (map_of d n) = Copied e"
  shows "\<exists>d'. fst (copyDirectoryContents env src dst (Some es) (Some d)) = Some d' \<and>
              map_of d' = map_of d ++ map_of es"
  using copy_loop_merge[OF assms, of "[]"]
  by (auto simp: copyDirectoryContents_def)

lemma exact_capture_dir:
  assumes wf: "well_formed w" and cp: "captures_exactly env co w"
    and s: "selected co l" and l: "live w l = Some es"
  shows "fst (copyDirectoryContents env (Live l) (Scratch (sub_of l)) (live w l) None) = Some es"
proof -
  from wf l have d: "distinct (map fst es)" by (auto simp: well_formed_def)
  from cp s l have "\<forall>(n, e)\<in>set es. std_copy env (Live l) (Scratch (sub_of l)) n e None = Copied e"
    by (auto simp: captures_exactly_def)
  from copy_into_absent[OF d this] l show ?thesis by simp
qed

text \<open>The sub-directory of the staged tree for a live location.\<close>

lemma exact_staged:
  assumes wf: "well_formed w" and cp: "captures_exactly env co w"
  shows "map_of (tdirs (fst (stage env co w))) (sub_of l) = (if selected co l then live w l else None)"
proof (cases "selected co l")
  case False
  then show ?thesis by (simp add: stage_tdirs)
next
  case True
  show ?thesis
  proof (cases "live w l")
    case None
    with True show ?thesis by (simp add: stage_tdirs copy_from_absent)
  next
    case (Some es)
    from exact_capture_dir[OF wf cp True Some] True Some show ?thesis by (simp add: stage_tdirs)
  qed
qed


lemma exact_restore_empty:
  assumes wf: "well_formed w" and rs: "restores_exactly env co w w2"
    and s: "selected co l" and l: "live w l = Some es" and e: "dest_dir w2 l = []"
  shows "fst (copyDirectoryContents env (Scratch (sub_of l)) (Live l) (Some es) (Some [])) = Some es"
proof -
  from wf l have d: "distinct (map fst es)" by (auto simp: well_formed_def)
  from rs s l e have "\<forall>(n, e)\<in>set es. std_copy env (Scratch (sub_of l)) (Live l) n e None = Copied e"
    by (fastforce simp: restores_exactly_def)
  from copy_into_empty[OF d this] show ?thesis by simp
qed

lemma exact_restore_same:
  assumes wf: "well_formed w" and rs: "restores_exactly env co w w2"
    and s: "selected co l" and l: "live w l = Some es" and e: "dest_dir w2 l = es"
  shows "fst (copyDirectoryContents env (Scratch (sub_of l)) (Live l) (Some es) (Some es)) = Some es"
proof -
  from wf l have d: "distinct (map fst es)" by (auto simp: well_formed_def)
  have "\<forall>(n, e)\<in>set es. std_copy env (Scratch (sub_of l)) (Live l) n e (Some e) = Copied e"
  proof (clarify)
    fix n e assume m: "(n, e) \<in> set es"
    with d have "map_of es n = Some e" by simp
    with rs s l e m show "std_copy env (Scratch (sub_of l)) (Live l) n e (Some e) = Copied e"
      by (fastforce simp: restores_exactly_def)
  qed
  from copy_over_same[OF d this] show ?thesis by simp
qed

lemma exact_restore_merge:
  assumes wf: "well_formed w" and rs: "restores_exactly env co w w2"
    and s: "selected co l" and l: "live w l = Some es"
  shows "\<exists>d. fst (copyDirectoryContents env (Scratch (sub_of l)) (Live l) (Some es)
                    (Some (dest_dir w2 l))) = Some d \<and>
             map_of d = map_of (dest_dir w2 l) ++ map_of es"
proof -
  from wf l have d: "distinct (map fst es)" by (auto simp: well_formed_def)
  from rs s l have "\<forall>(n, e)\<in>set es.
      std_copy env (Scratch (sub_of l)) (Live l) n e (map_of (dest_dir w2 l) n) = Copied e"
    by (fastforce simp: restores_exactly_def)
  from copy_merge[OF d this] show ?thesis .
qed

lemma settled_fields:
  "live settled_world Share = Some [(''applets'', ''A''), (''panel'', ''P'')]"
  "live settled_world Config = Some [(''spices'', ''C'')]"
  "live settled_world UserThemes = Some [(''Mint-Y'', ''T'')]"
  "live settled_world SystemFonts = Some [(''dejavu'', ''F'')]"
  "live settled_world UserIcons = None"
  "dconf_ns settled_world = ''[desktop]''"
  "live settled_world UserFonts = Some [(''fira'', ''N'')]"
  by (simp_all add: settled_world_def empty_world_def)

lemma settled_well_formed: "well_formed settled_world"
  by (auto simp: well_formed_def settled_world_def empty_world_def split: if_splits)

lemma secret_fields:
  "live secret_world Share = Some [(''secret'', ''S''), (''panel'', ''P'')]"
  by (simp add: secret_world_def empty_world_def)

lemma secret_staged:
  "fst (copyDirectoryContents unreadable_env (Live Share) (Scratch ''share'')
          (Some [(''secret'', ''S''), (''panel'', ''P'')]) None) = Some [(''panel'', ''P'')]"
  by (simp add: copyDirectoryContents_def unreadable_env_def ideal_env_def)

lemma secret_restored:
  "fst (copyDirectoryContents unreadable_env (Scratch ''share'') (Live Share)
          (Some [(''panel'', ''P'')]) (Some [])) = Some [(''panel'', ''P'')]"
  by (simp add: copyDirectoryContents_def unreadable_env_def ideal_env_def)

lemma unprivileged_fields:
  "std_copy unprivileged_env = (\<lambda>src dst n e old.
        if dst = Live SystemThemes \<or> dst = Live SystemIcons \<or> dst = Live SystemFonts
        then CopyFailed old else Copied e)"
  "zip_tool unprivileged_env = (\<lambda>t path old. if tdirs t = [] \<and> tfiles t = [] then None else Some t)"
  "unzip_tool unprivileged_env = (\<lambda>path t. Some t)"
  "dconf_dump_ok unprivileged_env" "dconf_file_readable unprivileged_env"
  "dconf_reset_ok unprivileged_env"
  "dconf_load unprivileged_env = (\<lambda>old new. Some new)"
  by (simp_all add: unprivileged_env_def nothing_to_do_env_def ideal_env_def)

lemma later_fields:
  "live later_world Share = Some [(''junk'', ''J'')]"
  "live later_world UserThemes = Some [(''Mint-Y'', ''X''), (''Extra'', ''E'')]"
  "live later_world SystemFonts = Some [(''dejavu'', ''F2'')]"
  "live later_world UserIcons = None"
  "dconf_ns later_world = ''[changed]''"
  "live later_world UserFonts = None"
  by (simp_all add: later_world_def)

lemma default_selection:
  "selected (componentOptions no_options) l =
     (l \<noteq> SystemThemes \<and> l \<noteq> SystemIcons \<and> l \<noteq> SystemFonts)"
  "dconf (componentOptions no_options)"
  by (cases l; simp add: componentOptions_def no_options_def)
     (simp add: componentOptions_def no_options_def)

lemma settled_captures: "captures_exactly unprivileged_env (componentOptions no_options) settled_world"
  by (simp add: captures_exactly_def unprivileged_fields)

lemma settled_restores:
  "restores_exactly unprivileged_env (componentOptions no_options) settled_world later_world"
  by (auto simp: restores_exactly_def unprivileged_fields default_selection)

lemma settled_packs:
  "packs_faithfully unprivileged_env
     (fst (stage unprivileged_env (componentOptions no_options) settled_world)) path old"
proof -
  have "map_of (tdirs (fst (stage unprivileged_env (componentOptions no_options) settled_world)))
          (sub_of Share) = live settled_world Share"
    using exact_staged[OF settled_well_formed settled_captures, of Share] by simp
  then have "tdirs (fst (stage unprivileged_env (componentOptions no_options) settled_world)) \<noteq> []"
    by (auto simp: settled_fields)
  then show ?thesis by (simp add: packs_faithfully_def unprivileged_fields)
qed

lemma settled_dconf_restores: "dconf_restores unprivileged_env settled_world later_world"
  by (simp add: dconf_restores_def unprivileged_fields settled_fields trim_def is_space_def)

text \<open>
  Claim C3. Entry names are unique in every live directory of the starting state \<open>w\<close>;
  every entry of an existing source directory of an enabled component can be copied
  exactly into the scratch directory; \<^verbatim>\<open>zip\<close> succeeds on the staged tree and \<^verbatim>\<open>unzip\<close>
  gives it back; the archive is applied, with the same selection, in a state \<open>w2\<close> that
  still holds it and whose live settings may have changed since, and every captured entry
  can be copied exactly back over what is there. Then the capture and the apply
  succeed, and afterwards: each core directory (share, config) holds exactly the entries
  it had at the capture, and is empty if it did not exist then; every other enabled
  location that existed at the capture holds the captured entries, laid over the
  entries that are there (an entry of another name stays), and is exactly as captured
  when the location was absent, empty or unchanged; every disabled location, and every
  enabled location other than the core ones that was absent at the capture, is as in
  \<open>w2\<close>; the dconf namespace is as in \<open>w2\<close> when dconf is disabled, and as at the
  capture when it is enabled and the dconf tools behave.
\<close>

theorem capture_apply_roundtrip:
  assumes wf: "well_formed w"
    and cap: "captures_exactly env co w"
    and pk: "packs_faithfully env (fst (stage env co w)) (backup_file env dir pfx)
               (archives w (backup_file env dir pfx))"
    and kept: "archives w2 (backup_file env dir pfx) =
               archives (snd (createTimestampedBackup env dir pfx (Some co) w)) (backup_file env dir pfx)"
    and rs: "restores_exactly env co w w2"
  shows "fst (createTimestampedBackup env dir pfx (Some co) w) = Some (backup_file env dir pfx) \<and>
         fst (restoreSettingsFromZip env (backup_file env dir pfx) sw (Some co) sb w2) = True \<and>
         (\<forall>l. l = Share \<or> l = Config \<longrightarrow>
            live (snd (restoreSettingsFromZip env (backup_file env dir pfx) sw (Some co) sb w2)) l =
              Some (case live w l of None \<Rightarrow> [] | Some es \<Rightarrow> es)) \<and>
         (\<forall>l es. l \<noteq> Share \<and> l \<noteq> Config \<and> selected co l \<and> live w l = Some es \<longrightarrow>
            (\<exists>d. live (snd (restoreSettingsFromZip env (backup_file env dir pfx) sw (Some co) sb w2)) l
                    = Some d \<and>
                  map_of d = map_of (dest_dir w2 l) ++ map_of es) \<and>
            (dest_dir w2 l = [] \<or> dest_dir w2 l = es \<longrightarrow>
               live (snd (restoreSettingsFromZip env (backup_file env dir pfx) sw (Some co) sb w2)) l
                 = Some es)) \<and>
         (\<forall>l. l \<noteq> Share \<and> l \<noteq> Config \<and> (\<not> selected co l \<or> live w l = None) \<longrightarrow>
            live (snd (restoreSettingsFromZip env (backup_file env dir pfx) sw (Some co) sb w2)) l =
              live w2 l) \<and>
         (\<not> dconf co \<longrightarrow>
            dconf_ns (snd (restoreSettingsFromZip env (backup_file env dir pfx) sw (Some co) sb w2)) =
              dconf_ns w2) \<and>
         (dconf co \<and> dconf_restores env w w2 \<longrightarrow>
            dconf_ns (snd (restoreSettingsFromZip env (backup_file env dir pfx) sw (Some co) sb w2)) =
              dconf_ns w)"
proof -
  let ?T = "fst (stage env co w)"
  let ?p = "backup_file env dir pfx"
  let ?R = "snd (restoreSettingsFromZip env ?p sw (Some co) sb w2)"
  from pk obtain a where z: "zip_tool env ?T ?p (archives w ?p) = Some a"
    and u: "unzip_tool env ?p a = Some ?T"
    by (auto simp: packs_faithfully_def)
  note c1 = capture_zipped(1)[OF z]
  from capture_zipped(2)[OF z] kept have a2: "archives w2 ?p = Some a" by simp
  have ok: "fst (restoreSettingsFromZip env ?p sw (Some co) sb w2) = True"
    by (simp add: restore_extracted[OF a2 u])
  note st = exact_staged[OF wf cap]
  have core: "live ?R l = Some (case live w l of None \<Rightarrow> [] | Some es \<Rightarrow> es)"
    if c: "l = Share \<or> l = Config" for l
  proof -
    from c have sel: "selected co l" by auto
    from c have e: "dest_dir w2 l = []" by (simp add: dest_dir_def)
    show ?thesis
    proof (cases "live w l")
      case None
      with sel show ?thesis by (simp add: restore_live_core[OF a2 u c] st)
    next
      case (Some es)
      from exact_restore_empty[OF wf rs sel Some e] sel Some show ?thesis
        by (simp add: restore_live_core[OF a2 u c] st)
    qed
  qed
  have theme: "(\<exists>d. live ?R l = Some d \<and> map_of d = map_of (dest_dir w2 l) ++ map_of es) \<and>
               (dest_dir w2 l = [] \<or> dest_dir w2 l = es \<longrightarrow> live ?R l = Some es)"
    if nc: "l \<noteq> Share" "l \<noteq> Config" and sel: "selected co l" and lv: "live w l = Some es" for l es
  proof -
    from nc have dd: "(case live w2 l of None \<Rightarrow> [] | Some x \<Rightarrow> x) = dest_dir w2 l"
      by (simp add: dest_dir_def)
    have r: "live ?R l = fst (copyDirectoryContents env (Scratch (sub_of l)) (Live l) (Some es)
                               (Some (dest_dir w2 l)))"
      using sel lv by (simp add: restore_live_theme[OF a2 u nc] st dd)
    from exact_restore_merge[OF wf rs sel lv] r
    have m: "\<exists>d. live ?R l = Some d \<and> map_of d = map_of (dest_dir w2 l) ++ map_of es" by simp
    have x: "live ?R l = Some es" if "dest_dir w2 l = [] \<or> dest_dir w2 l = es"
      using that exact_restore_empty[OF wf rs sel lv] exact_restore_same[OF wf rs sel lv] r
      by auto
    from m x show ?thesis by blast
  qed
  have other: "live ?R l = live w2 l"
    if nc: "l \<noteq> Share" "l \<noteq> Config" and no: "\<not> selected co l \<or> live w l = None" for l
    using no by (auto simp: restore_live_theme[OF a2 u nc] st)
  have d0: "dconf_ns ?R = dconf_ns w2" if "\<not> dconf co"
    using that by (simp add: restore_dconf[OF a2 u])
  have d1: "dconf_ns ?R = dconf_ns w" if "dconf co" "dconf_restores env w w2"
  proof -
    from that(2) have ne: "dconf_ns w \<noteq> []" by (auto simp: dconf_restores_def trim_def)
    with that show ?thesis
      by (auto simp: restore_dconf[OF a2 u] stage_tfiles dconf_restores_def)
  qed
  from c1 ok core theme other d0 d1 show ?thesis by blast
qed

theorem capture_apply_roundtrip_witness:
  "well_formed settled_world \<and>
   captures_exactly unprivileged_env (componentOptions no_options) settled_world \<and>
   packs_faithfully unprivileged_env
     (fst (stage unprivileged_env (componentOptions no_options) settled_world))
     (backup_file unprivileged_env ''/p/backup'' ''manual-backup'')
     (archives settled_world (backup_file unprivileged_env ''/p/backup'' ''manual-backup'')) \<and>
   archives later_world (backup_file unprivileged_env ''/p/backup'' ''manual-backup'') =
     archives (snd (createTimestampedBackup unprivileged_env ''/p/backup'' ''manual-backup''
                      (Some (componentOptions no_options)) settled_world))
       (backup_file unprivileged_env ''/p/backup'' ''manual-backup'') \<and>
   restores_exactly unprivileged_env (componentOptions no_options) settled_world later_world \<and>
   dconf (componentOptions no_options) \<and>
   dconf_restores unprivileged_env settled_world later_world \<and>
   fst (createTimestampedBackup unprivileged_env ''/p/backup'' ''manual-backup''
          (Some (componentOptions no_options)) settled_world) =
     Some (backup_file unprivileged_env ''/p/backup'' ''manual-backup'') \<and>
   fst (restoreSettingsFromZip unprivileged_env
          (backup_file unprivileged_env ''/p/backup'' ''manual-backup'') False
          (Some (componentOptions no_options)) False later_world) = True \<and>
   live (snd (restoreSettingsFromZip unprivileged_env
          (backup_file unprivileged_env ''/p/backup'' ''manual-backup'') False
          (Some (componentOptions no_options)) False later_world)) Share
     = Some [(''applets'', ''A''), (''panel'', ''P'')] \<and>
   live (snd (restoreSettingsFromZip unprivileged_env
          (backup_file unprivileged_env ''/p/backup'' ''manual-backup'') False
          (Some (componentOptions no_options)) False later_world)) Config
     = Some [(''spices'', ''C'')] \<and>
   (\<exists>d. live (snd (restoreSettingsFromZip unprivileged_env
          (backup_file unprivileged_env ''/p/backup'' ''manual-backup'') False
          (Some (componentOptions no_options)) False later_world)) UserThemes = Some d \<and>
        map_of d ''Mint-Y'' = Some ''T'' \<and> map_of d ''Extra'' = Some ''E'') \<and>
   live (snd (restoreSettingsFromZip unprivileged_env
          (backup_file unprivileged_env ''/p/backup'' ''manual-backup'') False
          (Some (componentOptions no_options)) False later_world)) SystemFonts
     = Some [(''dejavu'', ''F2'')] \<and>
   live (snd (restoreSettingsFromZip unprivileged_env
          (backup_file unprivileged_env ''/p/backup'' ''manual-backup'') False
          (Some (componentOptions no_options)) False later_world)) UserIcons = None \<and>
   live (snd (restoreSettingsFromZip unprivileged_env
          (backup_file unprivileged_env ''/p/backup'' ''manual-backup'') False
          (Some (componentOptions no_options)) False later_world)) UserFonts
     = Some [(''fira'', ''N'')] \<and>
   dconf_ns (snd (restoreSettingsFromZip unprivileged_env
          (backup_file unprivileged_env ''/p/backup'' ''manual-backup'') False
          (Some (componentOptions no_options)) False later_world)) = ''[desktop]''"
proof -
  let ?co = "componentOptions no_options"
  let ?p = "backup_file unprivileged_env ''/p/backup'' ''manual-backup''"
  let ?R = "snd (restoreSettingsFromZip unprivileged_env ?p False (Some ?co) False later_world)"
  have kept: "archives later_world ?p =
     archives (snd (createTimestampedBackup unprivileged_env ''/p/backup'' ''manual-backup''
                      (Some ?co) settled_world)) ?p"
    by (simp add: later_world_def)
  note T = capture_apply_roundtrip[OF settled_well_formed settled_captures settled_packs kept
      settled_restores, of False False]
  from T have c: "fst (createTimestampedBackup unprivileged_env ''/p/backup'' ''manual-backup''
          (Some ?co) settled_world) = Some ?p"
    and r: "fst (restoreSettingsFromZip unprivileged_env ?p False (Some ?co) False later_world) = True"
    by blast+
  from T have "live ?R Share = Some (case live settled_world Share of None \<Rightarrow> [] | Some es \<Rightarrow> es)"
    and "live ?R Config = Some (case live settled_world Config of None \<Rightarrow> [] | Some es \<Rightarrow> es)"
    by blast+
  then have core: "live ?R Share = Some [(''applets'', ''A''), (''panel'', ''P'')]"
    "live ?R Config = Some [(''spices'', ''C'')]"
    by (simp_all add: settled_fields)
  have sel: "selected ?co UserThemes" "\<not> selected ?co SystemFonts"
    using default_selection(1)[of UserThemes] default_selection(1)[of SystemFonts] by simp_all
  from T sel(1) settled_fields(3)
  obtain d where d: "live ?R UserThemes = Some d"
    "map_of d = map_of (dest_dir later_world UserThemes) ++ map_of [(''Mint-Y'', ''T'')]"
    by blast
  from d(2) have "map_of d ''Mint-Y'' = Some ''T''" "map_of d ''Extra'' = Some ''E''"
    by (simp_all add: dest_dir_def later_fields)
  with d(1) have th: "\<exists>d. live ?R UserThemes = Some d \<and>
        map_of d ''Mint-Y'' = Some ''T'' \<and> map_of d ''Extra'' = Some ''E''" by blast
  from T sel(2) have "live ?R SystemFonts = live later_world SystemFonts" by blast
  then have sf: "live ?R SystemFonts = Some [(''dejavu'', ''F2'')]" by (simp add: later_fields)
  from T settled_fields(5) have "live ?R UserIcons = live later_world UserIcons" by blast
  then have ui: "live ?R UserIcons = None" by (simp add: later_fields)
  have "selected ?co UserFonts" using default_selection(1)[of UserFonts] by simp
  moreover have "dest_dir later_world UserFonts = []" by (simp add: dest_dir_def later_fields)
  ultimately have uf: "live ?R UserFonts = Some [(''fira'', ''N'')]"
    using T settled_fields(7) by blast
  from T default_selection(2) settled_dconf_restores have "dconf_ns ?R = dconf_ns settled_world"
    by blast
  then have dc: "dconf_ns ?R = ''[desktop]''" by (simp add: settled_fields)
  from settled_well_formed settled_captures settled_packs kept settled_restores
    default_selection(2) settled_dconf_restores c r core th sf ui uf dc
  show ?thesis by (intro conjI)
qed

text \<open>An entry that cannot be copied at the capture is lost by the apply, and a core
  directory that did not exist is there afterwards.\<close>

lemma unreadable_fields:
  "zip_tool unreadable_env = (\<lambda>t path old. Some t)"
  "unzip_tool unreadable_env = (\<lambda>path t. Some t)"
  by (simp_all add: unreadable_env_def ideal_env_def)

theorem capture_apply_counterexample:
  "well_formed secret_world \<and>
   packs_faithfully unreadable_env
     (fst (stage unreadable_env (componentOptions no_options) secret_world))
     (backup_file unreadable_env ''/p/backup'' ''manual-backup'')
     (archives secret_world (backup_file unreadable_env ''/p/backup'' ''manual-backup'')) \<and>
   live secret_world Share = Some [(''secret'', ''S''), (''panel'', ''P'')] \<and>
   fst (capture_then_apply unreadable_env ''/p/backup'' ''manual-backup''
          (componentOptions no_options) True True secret_world) = True \<and>
   live (snd (capture_then_apply unreadable_env ''/p/backup'' ''manual-backup''
          (componentOptions no_options) True True secret_world)) Share
     = Some [(''panel'', ''P'')] \<and>
   live secret_world Config = None \<and>
   live (snd (capture_then_apply unreadable_env ''/p/backup'' ''manual-backup''
          (componentOptions no_options) True True secret_world)) Config
     = Some []"
proof -
  let ?co = "componentOptions no_options"
  let ?T = "fst (stage unreadable_env ?co secret_world)"
  let ?p = "backup_file unreadable_env ''/p/backup'' ''manual-backup''"
  have wf: "well_formed secret_world"
    by (auto simp: well_formed_def secret_world_def empty_world_def split: if_splits)
  have z: "zip_tool unreadable_env ?T ?p (archives secret_world ?p) = Some ?T"
    and u: "unzip_tool unreadable_env ?p ?T = Some ?T"
    by (simp_all add: unreadable_fields)
  from z u have pk: "packs_faithfully unreadable_env ?T ?p (archives secret_world ?p)"
    by (simp add: packs_faithfully_def)
  note a1 = capture_zipped(2)[OF z]
  note eq = capture_then_apply_zipped[OF z, of True True]
  have st: "map_of (tdirs ?T) (sub_of Share) = Some [(''panel'', ''P'')]"
    by (simp only: stage_tdirs) (simp add: secret_fields secret_staged)
  have lv: "live (snd (capture_then_apply unreadable_env ''/p/backup'' ''manual-backup'' ?co True True
                secret_world)) Share = Some [(''panel'', ''P'')]"
    using st by (simp add: eq restore_live_core[OF a1 u] secret_restored)
  have ok: "fst (capture_then_apply unreadable_env ''/p/backup'' ''manual-backup'' ?co True True
                secret_world) = True"
    by (simp add: eq restore_extracted[OF a1 u])
  have nc: "live secret_world Config = None" by (simp add: secret_world_def empty_world_def)
  have "map_of (tdirs ?T) (sub_of Config) = None"
    by (simp only: stage_tdirs) (simp add: nc copy_from_absent)
  then have cf: "live (snd (capture_then_apply unreadable_env ''/p/backup'' ''manual-backup'' ?co True True
                secret_world)) Config = Some []"
    by (simp add: eq restore_live_core[OF a1 u])
  from wf pk secret_fields ok lv nc cf show ?thesis by (intro conjI)
qed


section \<open>Backup before mutation\<close>

lemma monitor_append:
  "monitor s g (xs @ ys) = (case monitor s g xs of None \<Rightarrow> None | Some g' \<Rightarrow> monitor s g' ys)"
  by (induction xs arbitrary: g) (auto split: option.splits)

lemma monitor_logs: "\<forall>e\<in>set es. is_log e \<Longrightarrow> monitor s g es = Some g"
proof (induction es)
  case Nil
  then show ?case by simp
next
  case (Cons e es)
  then show ?case by (cases e) auto
qed

lemma monitor_append_logs:
  "\<forall>e\<in>set es. is_log e \<Longrightarrow> monitor s g (xs @ es) = monitor s g xs"
  by (simp add: monitor_append monitor_logs split: option.splits)

lemma copy_loop_logs:
  "\<forall>e\<in>set (snd acc). is_log e \<Longrightarrow> \<forall>e\<in>set (snd (copy_loop env src dst es acc)). is_log e"
proof (induction es arbitrary: acc)
  case Nil
  then show ?case by simp
next
  case (Cons x es)
  obtain n e where x: "x = (n, e)" by (cases x)
  obtain d lg where acc: "acc = (d, lg)" by (cases acc)
  show ?case
    using Cons.prems unfolding x acc
    by (cases "std_copy env src dst n e (map_of d n)") (auto intro!: Cons.IH)
qed

lemma copyDirectoryContents_logs:
  "\<forall>e\<in>set (snd (copyDirectoryContents env src dst a b)). is_log e"
  using copy_loop_logs[of "(case b of None \<Rightarrow> [] | Some d0 \<Rightarrow> d0, [])" env src dst]
  by (auto simp: copyDirectoryContents_def case_prod_beta split: option.splits)

lemma stageCore_logs:
  "\<forall>e\<in>set (snd acc). is_log e \<Longrightarrow> \<forall>e\<in>set (snd (stageCore env l sub w acc)). is_log e"
  using copyDirectoryContents_logs[of env "Live l" "Scratch sub" "live w l" "map_of (tdirs (fst acc)) sub"]
  by (auto simp: stageCore_def case_prod_beta)

lemma stageLocation_logs:
  "\<forall>e\<in>set (snd acc). is_log e \<Longrightarrow> \<forall>e\<in>set (snd (stageLocation env b l sub w acc)). is_log e"
  using stageCore_logs[of acc env l sub w] by (simp add: stageLocation_def)

lemma stageDconf_logs:
  "\<forall>e\<in>set (snd acc). is_log e \<Longrightarrow> \<forall>e\<in>set (snd (stageDconf env co w acc)). is_log e"
  by (auto simp: stageDconf_def case_prod_beta)

lemma stage_logs: "\<forall>e\<in>set (snd (stage env co w)). is_log e"
  unfolding stage_def copyThemeIconAndFontDirectories_def copyThemeDirectories_def
    copyIconDirectories_def copyFontDirectories_def
  by (intro stageDconf_logs stageLocation_logs stageCore_logs) simp

lemma stage_monitor: "monitor s g (snd (stage env co w)) = Some g"
  by (rule monitor_logs[OF stage_logs])

lemma zip_monitor:
  "monitor s g (trace (snd (zipDirectoryContents env t p w))) = monitor s g (trace w)"
  by (simp add: zipDirectoryContents_def Let_def monitor_append_logs split: option.splits)

lemma backup_monitor:
  "monitor s g (trace (snd (createTimestampedBackup env dir pfx co w))) =
     (case monitor s g (trace w) of
        None \<Rightarrow> None
      | Some g' \<Rightarrow> Some (if fst (createTimestampedBackup env dir pfx co w) \<noteq> None
                        then BackedUp else BackupFailed))"
  by (simp add: createTimestampedBackup_def Let_def case_prod_beta monitor_append zip_monitor
      stage_monitor split: option.splits)


lemma emptyDir_monitor:
  "monitor s g (trace w) = Some p \<Longrightarrow> protected s p \<Longrightarrow>
   monitor s g (trace (emptyDirIfExists l w)) = Some p"
  by (auto simp: emptyDirIfExists_def monitor_append protected_def)

lemma restoreInto_monitor:
  "monitor s g (trace (restoreInto env l sub d w)) = monitor s g (trace w)"
  using copyDirectoryContents_logs[of env "Scratch sub" "Live l" "Some d" "live w l"]
  by (simp add: restoreInto_def case_prod_beta monitor_append_logs)

lemma restoreCore_monitor:
  "monitor s g (trace (restoreCore env l sub m t w)) = monitor s g (trace w)"
  by (simp add: restoreCore_def restoreInto_monitor monitor_append_logs split: option.splits)

lemma restoreLocation_monitor:
  "monitor s g (trace (restoreLocation env b l sub t w)) = monitor s g (trace w)"
  by (simp add: restoreLocation_def restoreInto_monitor split: option.splits)

lemma restoreTIF_monitor:
  "monitor s g (trace (restoreThemeIconAndFontDirectories env t co w)) = monitor s g (trace w)"
  by (simp add: restoreThemeIconAndFontDirectories_def restoreThemeDirectories_def
      restoreIconDirectories_def restoreFontDirectories_def restoreLocation_monitor)

lemma restoreDconf_monitor:
  "monitor s g (trace (restoreDconf env t co w)) = monitor s g (trace w)"
  by (simp add: restoreDconf_def Let_def monitor_append_logs split: option.splits)

lemma preRestoreBackup_monitor:
  "monitor s g (trace w) = Some p \<Longrightarrow>
   \<exists>p'. monitor s g (trace (preRestoreBackup env co w)) = Some p' \<and> protected False p'"
  by (simp add: preRestoreBackup_def Let_def case_prod_beta backup_monitor monitor_append_logs
      protected_def)

lemma unzip_monitor:
  "monitor s g (trace (snd (unzipArchive env p w))) = monitor s g (trace w)"
  by (simp add: unzipArchive_def monitor_append_logs split: option.splits)

text \<open>The apply phase: from a protected state every wipe passes.\<close>

lemma apply_monitor:
  assumes "monitor s g (trace w) = Some p" and "protected s p"
  shows "monitor s g (trace
           (restoreDconf env t co
             (restoreThemeIconAndFontDirectories env t co
               (restoreCore env Config ''config'' NoConfigInArchive t
                 (restoreCore env Share ''share'' NoShareInArchive t
                   (mkdir Config (mkdir Share
                     (emptyDirIfExists Config (emptyDirIfExists Share w))))))))) = Some p"
  using emptyDir_monitor[OF emptyDir_monitor[OF assms, of Share] assms(2), of Config]
  by (simp add: restoreDconf_monitor restoreTIF_monitor restoreCore_monitor)

lemma restore_switch_monitor:
  assumes "monitor s g (trace w) = Some p" and "protected s p"
  shows "monitor s g (trace (snd (restoreSettingsFromZip env path True co skip w))) = Some p"
proof (cases "fst (unzipArchive env path w)")
  case None
  with assms(1) unzip_monitor[of s g env path w] show ?thesis
    by (simp add: restoreSettingsFromZip_def case_prod_beta Let_def monitor_append_logs)
next
  case (Some t)
  from assms(1) have u: "monitor s g (trace (snd (unzipArchive env path w))) = Some p"
    by (simp add: unzip_monitor)
  from Some assms(1) apply_monitor[OF u assms(2)] show ?thesis
    by (simp add: restoreSettingsFromZip_def case_prod_beta Let_def monitor_append_logs)
qed

lemma restore_cmd_monitor:
  assumes "monitor False g (trace w) = Some p" and "\<not> skip"
  shows "monitor False g (trace (snd (restoreSettingsFromZip env path False co skip w))) \<noteq> None"
proof (cases "fst (unzipArchive env path w)")
  case None
  with assms(1) unzip_monitor[of False g env path w] show ?thesis
    by (simp add: restoreSettingsFromZip_def case_prod_beta Let_def monitor_append_logs)
next
  case (Some t)
  from assms(1) have u: "monitor False g (trace (snd (unzipArchive env path w))) = Some p"
    by (simp add: unzip_monitor)
  let ?co = "case co of None \<Rightarrow> all_components | Some c \<Rightarrow> c"
  from preRestoreBackup_monitor[OF u, of env ?co]
  obtain p' where p': "monitor False g (trace (preRestoreBackup env ?co (snd (unzipArchive env path w)))) = Some p'"
    "protected False p'" by blast
  from Some assms apply_monitor[OF p'] show ?thesis
    by (simp add: restoreSettingsFromZip_def case_prod_beta Let_def monitor_append_logs)
qed


lemma readProfiles_monitor:
  "monitor s g (trace (snd (readProfiles env w))) = monitor s g (trace w)"
  by (simp add: readProfiles_def Let_def monitor_append_logs split: option.splits)

lemma select_monitor:
  "monitor s g (trace (snd (selectBackupFile env w))) = monitor s g (trace w)"
  by (simp add: selectBackupFile_def Let_def monitor_append_logs split: option.splits)

lemma switchBackup_monitor:
  assumes "monitor s g (trace w) = Some p" and "opt_noBackup options \<noteq> Some True"
  shows "\<exists>p'. monitor s g (trace (snd (snd (switchBackup env nm options co w)))) = Some p' \<and>
              (\<not> fst (switchBackup env nm options co w) \<longrightarrow> protected True p')"
  using assms
  by (simp add: switchBackup_def Let_def case_prod_beta backup_monitor monitor_append
      protected_def)

lemma switch_monitor:
  assumes "monitor True g (trace w) = Some p" and "opt_noBackup options \<noteq> Some True"
  shows "monitor True g (trace (snd (switchProfile env nm options w))) \<noteq> None"
proof (cases "find (\<lambda>p. name p = nm) (registry w)")
  case None
  with assms(1) show ?thesis
    by (simp add: switchProfile_def case_prod_beta readProfiles_fst monitor_append_logs
        readProfiles_monitor)
next
  case (Some pr)
  let ?q = "if active pr then ConfirmReapply else ConfirmSwitch"
  let ?w2 = "emit [Asked ?q (confirm env ?q)] (snd (readProfiles env w))"
  have m2: "monitor True g (trace ?w2) = Some p"
    using assms(1) by (simp add: monitor_append readProfiles_monitor)
  show ?thesis
  proof (cases "confirm env ?q")
    case False
    with Some m2 show ?thesis
      by (simp add: switchProfile_def case_prod_beta readProfiles_fst Let_def)
  next
    case True
    let ?sb = "switchBackup env nm options (componentOptions options) ?w2"
    from switchBackup_monitor[OF m2 assms(2), of env nm "componentOptions options"]
    obtain p' where p': "monitor True g (trace (snd (snd ?sb))) = Some p'"
      "\<not> fst ?sb \<longrightarrow> protected True p'" by blast
    show ?thesis
    proof (cases "fst ?sb")
      case True
      with Some \<open>confirm env ?q\<close> p'(1) show ?thesis
        by (simp add: switchProfile_def case_prod_beta readProfiles_fst Let_def)
    next
      case False
      with p'(2) have pr: "protected True p'" by simp
      from restore_switch_monitor[OF p'(1) pr, of env "zipFile pr" "Some (componentOptions options)" True]
        Some \<open>confirm env ?q\<close> False
      show ?thesis
        by (simp add: switchProfile_def case_prod_beta readProfiles_fst Let_def writeProfiles_def
            monitor_append_logs)
    qed
  qed
qed

lemma restoreBackupCmd_monitor:
  assumes "monitor False g (trace w) = Some p" and "opt_noBackup options \<noteq> Some True"
  shows "monitor False g (trace (snd (restoreBackupCmd env options w))) \<noteq> None"
proof (cases "fst (selectBackupFile env w)")
  case None
  with assms(1) show ?thesis
    by (simp add: restoreBackupCmd_def case_prod_beta Let_def select_monitor)
next
  case (Some path)
  from assms(1) have m: "monitor False g (trace (snd (selectBackupFile env w))) = Some p"
    by (simp add: select_monitor)
  from restore_cmd_monitor[OF m, of "opt_noBackup options = Some True" env path
      "Some (componentOptions options)"] assms(2) Some
  show ?thesis
    by (simp add: restoreBackupCmd_def case_prod_beta Let_def monitor_append_logs
        split: option.splits)
qed

lemma stage_cong:
  assumes "live w' = live w" "dconf_ns w' = dconf_ns w"
  shows "stage env c w' = stage env c w"
proof -
  have core: "\<And>l sub acc. stageCore env l sub w' acc = stageCore env l sub w acc"
    using assms(1) by (simp add: stageCore_def)
  have loc: "\<And>b l sub acc. stageLocation env b l sub w' acc = stageLocation env b l sub w acc"
    using assms(1) by (simp add: stageLocation_def core)
  have dc: "\<And>acc. stageDconf env c w' acc = stageDconf env c w acc"
    using assms(2) by (simp add: stageDconf_def case_prod_beta)
  show ?thesis
    unfolding stage_def copyThemeIconAndFontDirectories_def copyThemeDirectories_def
      copyIconDirectories_def copyFontDirectories_def
    by (simp only: core loc dc)
qed

lemma zip_result_cong:
  "archives w' = archives w \<Longrightarrow>
   fst (zipDirectoryContents env t p w') = fst (zipDirectoryContents env t p w)"
  by (simp add: zipDirectoryContents_def Let_def split: option.splits)

lemma backup_result_cong:
  assumes "live w' = live w" "dconf_ns w' = dconf_ns w" "archives w' = archives w"
  shows "fst (createTimestampedBackup env dir pfx co w') = fst (createTimestampedBackup env dir pfx co w)"
proof -
  have "\<And>t p lg. fst (zipDirectoryContents env t p (emit lg w')) = fst (zipDirectoryContents env t p (emit lg w))"
    using assms(3) by (intro zip_result_cong) simp
  then show ?thesis
    by (simp add: createTimestampedBackup_def Let_def case_prod_beta stage_cong[OF assms(1,2)])
qed

lemma switch_declined:
  assumes found: "nm \<in> name ` set (registry w)"
    and yes: "confirm env ConfirmSwitch" "confirm env ConfirmReapply"
    and no: "\<not> confirm env ConfirmContinueWithoutBackup"
    and nb: "opt_noBackup options \<noteq> Some True"
    and failed: "fst (createTimestampedBackup env (AUTO_BACKUP_DIR env)
                   (''pre-switch-to-'' @ sanitize nm) (Some (componentOptions options)) w) = None"
  shows "fst (switchProfile env nm options w) = Exited 0 \<and>
         live (snd (switchProfile env nm options w)) = live w \<and>
         dconf_ns (snd (switchProfile env nm options w)) = dconf_ns w \<and>
         registry (snd (switchProfile env nm options w)) = registry w"
proof -
  from found obtain pr where pr: "find (\<lambda>p. name p = nm) (registry w) = Some pr"
    by (cases "find (\<lambda>p. name p = nm) (registry w)") (auto simp: find_None_iff)
  let ?q = "if active pr then ConfirmReapply else ConfirmSwitch"
  let ?w2 = "emit [Asked ?q True] (snd (readProfiles env w))"
  have q: "confirm env ?q" using yes by simp
  have "fst (createTimestampedBackup env (AUTO_BACKUP_DIR env)
                   (''pre-switch-to-'' @ sanitize nm) (Some (componentOptions options)) ?w2) = None"
    using failed backup_result_cong[of ?w2 w env] by (simp add: readProfiles_keeps)
  then have sb: "fst (switchBackup env nm options (componentOptions options) ?w2)"
    using nb no by (simp add: switchBackup_def Let_def case_prod_beta)
  have reg: "registry (snd (snd (switchBackup env nm options (componentOptions options) ?w2))) = registry w"
    using registry_cong[of "snd (snd (switchBackup env nm options (componentOptions options) ?w2))" ?w2]
    by (simp add: readProfiles_registry)
  from pr q sb reg show ?thesis
    by (simp add: switchProfile_def case_prod_beta readProfiles_fst Let_def readProfiles_keeps)
qed

lemma backup_fails_without_zip:
  "zip_tool env (fst (stage env (case co of None \<Rightarrow> all_components | Some c \<Rightarrow> c) w))
      (backup_file env dir pfx) (archives w (backup_file env dir pfx)) = None \<Longrightarrow>
   fst (createTimestampedBackup env dir pfx co w) = None"
  by (simp add: createTimestampedBackup_def zipDirectoryContents_def Let_def case_prod_beta
      backup_file_def)

lemma backup_trace:
  "trace (snd (createTimestampedBackup env dir pfx (Some co) w)) =
     trace w @ snd (stage env co w) @
     (if tdirs (fst (stage env co w)) = [] \<and> tfiles (fst (stage env co w)) = []
      then [Warning EmptySource] else []) @
     (case zip_tool env (fst (stage env co w)) (backup_file env dir pfx)
             (archives w (backup_file env dir pfx)) of
        None \<Rightarrow> [Error (ZipFailed (backup_file env dir pfx)), BackupAttempt pfx False]
      | Some a \<Rightarrow> [BackupAttempt pfx True])"
  by (simp add: createTimestampedBackup_def zipDirectoryContents_def Let_def case_prod_beta
      backup_file_def split: option.splits)

lemma preRestoreBackup_trace:
  "trace (preRestoreBackup env co w) =
     trace (snd (createTimestampedBackup env (AUTO_BACKUP_DIR env) ''pre-restore'' (Some co) w)) @
     (if fst (createTimestampedBackup env (AUTO_BACKUP_DIR env) ''pre-restore'' (Some co) w) = None
      then [Warning PreRestoreBackupFailed] else [])"
  by (simp add: preRestoreBackup_def Let_def case_prod_beta)

lemma emptyDir_trace:
  "trace (emptyDirIfExists l w) = (if live w l \<noteq> None then trace w @ [EmptyDir l] else trace w)"
  by (simp add: emptyDirIfExists_def)

lemma emptyDir_live_at:
  "live (emptyDirIfExists l w) l' = (if l' = l \<and> live w l \<noteq> None then Some [] else live w l')"
  by (simp add: emptyDirIfExists_def)

lemma mkdir_live_at:
  "live (mkdir l w) l' = (if l' = l \<and> live w l = None then Some [] else live w l')"
  by (simp add: mkdir_def)

lemma mkdir_trace: "trace (mkdir l w) = trace w"
  by (simp add: mkdir_def)

lemma restoreCore_trace:
  "trace (restoreCore env l sub m t w) =
     (case map_of (tdirs t) sub of
        None \<Rightarrow> trace w @ [Warning m]
      | Some d \<Rightarrow> trace w @ snd (copyDirectoryContents env (Scratch sub) (Live l) (Some d) (live w l)))"
  by (simp add: restoreCore_def restoreInto_def case_prod_beta split: option.splits)

lemma restoreLocation_absent:
  "map_of (tdirs t) sub = None \<Longrightarrow> restoreLocation env b l sub t w = w"
  by (simp add: restoreLocation_def)

lemma tif_absent:
  "restoreThemeIconAndFontDirectories env work_archive co w = w"
  by (simp add: tif_defs restoreLocation_absent work_archive_def)

lemma dconf_absent: "restoreDconf env work_archive co w = w"
  by (simp add: restoreDconf_def work_archive_def)

lemma restore_fields:
  "live restore_world = (\<lambda>l. if l = Share then Some [(''old'', ''O'')] else None)"
  "dconf_ns restore_world = []"
  "archives restore_world = (\<lambda>path. if path = backup_path then Some work_archive else None)"
  "trace restore_world = []"
  "manual_listing restore_world = Some [(''manual-backup-2025-01-02T03-04-05-678Z.zip'', True)]"
  "auto_listing restore_world = Some []"
  by (simp_all add: restore_world_def one_backup_world_def empty_world_def)

lemma failing_zip_fields:
  "std_copy failing_zip_env = (\<lambda>src dst n e old. Copied e)"
  "zip_tool failing_zip_env = (\<lambda>t path old. None)"
  "unzip_tool failing_zip_env = (\<lambda>path t. Some t)"
  "dconf_dump_ok failing_zip_env" "prompt_input failing_zip_env = Some ''1''"
  "root failing_zip_env = ''/p''" "now_iso failing_zip_env = ''2025-01-01T00:00:00.000Z''"
  "date_parse failing_zip_env = (\<lambda>s. None)"
  by (simp_all add: failing_zip_env_def typing_env_def ideal_env_def)

lemma restore_world_staged:
  "stage failing_zip_env (componentOptions no_options) restore_world =
     (\<lparr>tdirs = [(''share'', [(''old'', ''O'')])], tfiles = []\<rparr>,
      [Warning (SourceMissing (Live Config)), Warning DconfDumpFailed])"
  by (simp add: stage_def stageCore_def stageLocation_def stageDconf_def
      copyThemeIconAndFontDirectories_def copyThemeDirectories_def copyIconDirectories_def
      copyFontDirectories_def copyDirectoryContents_def componentOptions_def no_options_def
      restore_fields failing_zip_fields)

lemma restore_selected:
  "selectBackupFile failing_zip_env restore_world = (Some backup_path, restore_world)"
proof -
  have l: "backup_listing failing_zip_env restore_world =
     [\<lparr>filename = ''manual-backup-2025-01-02T03-04-05-678Z.zip'', date = None,
       fullPath = backup_path, kind = ''Manual''\<rparr>]"
    by (simp add: listing_defs restore_fields failing_zip_fields backup_path_def)
  have n: "parseInt ''1'' = Some 1" by (simp add: parseInt_defs)
  show ?thesis by (simp add: selectBackupFile_def l n restore_fields failing_zip_fields)
qed

lemma restore_world_copy:
  "copyDirectoryContents failing_zip_env (Scratch ''share'') (Live Share) (Some [(''a'', ''A'')])
     (Some []) = (Some [(''a'', ''A'')], [])"
  by (simp add: copyDirectoryContents_def failing_zip_fields)

text \<open>
  Claim C4. Take a run of \<open>switch\<close> or of \<open>restore\<close> that starts with an empty trace and
  without the skip-backup flag. In a switch, every wipe of a live directory comes after an
  automatic backup that succeeded, or after a failed one that the user overrode by
  answering yes to the second confirmation. In a restore, every wipe comes after an
  attempted automatic backup, failed or not: \<open>restoreSettingsFromZip\<close> only warns when the
  pre-restore backup fails and goes on. When the pre-switch backup fails and the user
  declines the second confirmation, the switch exits with status 0 and the live
  directories, the dconf settings and the registry are as before.
\<close>

theorem backup_before_mutation:
  assumes "trace w = []" and "opt_noBackup options \<noteq> Some True"
  shows "backup_before_wipe True (trace (snd (switchProfile env nm options w))) \<and>
         backup_before_wipe False (trace (snd (restoreBackupCmd env options w))) \<and>
         (nm \<in> name ` set (registry w) \<and> confirm env ConfirmSwitch \<and> confirm env ConfirmReapply \<and>
          \<not> confirm env ConfirmContinueWithoutBackup \<and>
          fst (createTimestampedBackup env (AUTO_BACKUP_DIR env) (''pre-switch-to-'' @ sanitize nm)
                 (Some (componentOptions options)) w) = None \<longrightarrow>
            fst (switchProfile env nm options w) = Exited 0 \<and>
            live (snd (switchProfile env nm options w)) = live w \<and>
            dconf_ns (snd (switchProfile env nm options w)) = dconf_ns w \<and>
            registry (snd (switchProfile env nm options w)) = registry w)"
proof -
  have m: "\<And>s. monitor s Unprotected (trace w) = Some Unprotected"
    using assms(1) by simp
  show ?thesis
    unfolding backup_before_wipe_def
    using switch_monitor[OF m assms(2), of env nm] restoreBackupCmd_monitor[OF m assms(2), of env]
      switch_declined[of nm w env options] assms(2)
    by blast
qed

text \<open>A switch whose backup fails and whose user declines: nothing is touched.\<close>

theorem backup_before_mutation_witness:
  "trace busy_world = [] \<and> opt_noBackup no_options = None \<and>
   ''work'' \<in> name ` set (registry busy_world) \<and>
   confirm declining_env ConfirmSwitch \<and> confirm declining_env ConfirmReapply \<and>
   \<not> confirm declining_env ConfirmContinueWithoutBackup \<and>
   fst (createTimestampedBackup declining_env (AUTO_BACKUP_DIR declining_env)
          (''pre-switch-to-'' @ sanitize ''work'') (Some (componentOptions no_options))
          busy_world) = None \<and>
   fst (switchProfile declining_env ''work'' no_options busy_world) = Exited 0 \<and>
   live (snd (switchProfile declining_env ''work'' no_options busy_world)) = live busy_world \<and>
   dconf_ns (snd (switchProfile declining_env ''work'' no_options busy_world)) = dconf_ns busy_world \<and>
   registry (snd (switchProfile declining_env ''work'' no_options busy_world)) = registry busy_world \<and>
   backup_before_wipe True (trace (snd (switchProfile declining_env ''work'' no_options busy_world))) \<and>
   backup_before_wipe False (trace (snd (restoreBackupCmd declining_env no_options busy_world)))"
proof -
  have t: "trace busy_world = []"
    by (simp add: busy_world_def two_profiles_world_def empty_world_def)
  have o: "opt_noBackup no_options = None" by (simp add: no_options_def)
  have o': "opt_noBackup no_options \<noteq> Some True" by (simp add: o)
  have r: "''work'' \<in> name ` set (registry busy_world)"
    using registry_cong[of busy_world two_profiles_world]
    by (simp add: busy_world_def registry_two_profiles work_profile_def)
  have c: "confirm declining_env ConfirmSwitch" "confirm declining_env ConfirmReapply"
    "\<not> confirm declining_env ConfirmContinueWithoutBackup"
    by (simp_all add: declining_env_def ideal_env_def)
  have b: "fst (createTimestampedBackup declining_env (AUTO_BACKUP_DIR declining_env)
          (''pre-switch-to-'' @ sanitize ''work'') (Some (componentOptions no_options))
          busy_world) = None"
    by (rule backup_fails_without_zip) (simp add: declining_env_def ideal_env_def)
  from backup_before_mutation[OF t o', where env = declining_env and nm = "''work''"] r c b
  show ?thesis by (simp add: t o)
qed

text \<open>
  A restore whose pre-restore backup fails: one warning, no second confirmation, and the
  live \<open>share\<close> directory is wiped and replaced by the archive's.
\<close>

theorem restore_unconfirmed_counterexample:
  "opt_noBackup no_options \<noteq> Some True \<and>
   fst (restoreBackupCmd failing_zip_env no_options restore_world) = Returned \<and>
   trace (snd (restoreBackupCmd failing_zip_env no_options restore_world)) =
     [Warning (SourceMissing (Live Config)), Warning DconfDumpFailed,
      Error (ZipFailed ''/p/auto-backup/pre-restore-2025-01-01T00-00-00-000Z.zip''),
      BackupAttempt ''pre-restore'' False, Warning PreRestoreBackupFailed,
      EmptyDir Share, Warning NoConfigInArchive] \<and>
   backup_before_wipe False (trace (snd (restoreBackupCmd failing_zip_env no_options restore_world))) \<and>
   \<not> backup_before_wipe True (trace (snd (restoreBackupCmd failing_zip_env no_options restore_world))) \<and>
   live restore_world Share = Some [(''old'', ''O'')] \<and>
   live (snd (restoreBackupCmd failing_zip_env no_options restore_world)) Share = Some [(''a'', ''A'')]"
proof -
  let ?co = "componentOptions no_options"
  have nb: "opt_noBackup no_options \<noteq> Some True" by (simp add: no_options_def)
  have a: "archives restore_world backup_path = Some work_archive"
    by (simp add: restore_fields)
  have u: "unzip_tool failing_zip_env backup_path work_archive = Some work_archive"
    by (simp add: failing_zip_fields)
  have bf: "backup_file failing_zip_env (AUTO_BACKUP_DIR failing_zip_env) ''pre-restore'' =
              ''/p/auto-backup/pre-restore-2025-01-01T00-00-00-000Z.zip''"
    by (simp add: backup_file_def AUTO_BACKUP_DIR_def join_def normalize_path_def file_timestamp_def
        failing_zip_fields)
  have fails: "fst (createTimestampedBackup failing_zip_env (AUTO_BACKUP_DIR failing_zip_env)
                      ''pre-restore'' (Some ?co) restore_world) = None"
    by (rule backup_fails_without_zip) (simp add: failing_zip_fields)
  have pre: "trace (preRestoreBackup failing_zip_env ?co restore_world) =
     [Warning (SourceMissing (Live Config)), Warning DconfDumpFailed,
      Error (ZipFailed ''/p/auto-backup/pre-restore-2025-01-01T00-00-00-000Z.zip''),
      BackupAttempt ''pre-restore'' False, Warning PreRestoreBackupFailed]"
    by (simp add: preRestoreBackup_trace fails backup_trace restore_world_staged bf
        restore_fields failing_zip_fields)
  have run: "restoreBackupCmd failing_zip_env no_options restore_world =
     (Returned,
      restoreDconf failing_zip_env work_archive ?co
        (restoreThemeIconAndFontDirectories failing_zip_env work_archive ?co
          (restoreCore failing_zip_env Config ''config'' NoConfigInArchive work_archive
            (restoreCore failing_zip_env Share ''share'' NoShareInArchive work_archive
              (mkdir Config (mkdir Share
                (emptyDirIfExists Config (emptyDirIfExists Share
                  (preRestoreBackup failing_zip_env ?co restore_world)))))))))"
    using nb by (simp add: restoreBackupCmd_def restore_selected restore_extracted[OF a u] Let_def)
  have tr: "trace (snd (restoreBackupCmd failing_zip_env no_options restore_world)) =
     [Warning (SourceMissing (Live Config)), Warning DconfDumpFailed,
      Error (ZipFailed ''/p/auto-backup/pre-restore-2025-01-01T00-00-00-000Z.zip''),
      BackupAttempt ''pre-restore'' False, Warning PreRestoreBackupFailed,
      EmptyDir Share, Warning NoConfigInArchive]"
    unfolding run snd_conv tif_absent dconf_absent
    by (simp add: restoreCore_trace emptyDir_trace emptyDir_live_at mkdir_live_at mkdir_trace
        pre restore_fields work_archive_def restore_world_copy)
  have lv: "live (snd (restoreBackupCmd failing_zip_env no_options restore_world)) Share =
              Some [(''a'', ''A'')]"
    unfolding run snd_conv tif_absent dconf_absent
    by (simp add: restoreCore_other restoreCore_same wipe_live work_archive_def restore_world_copy)
  show ?thesis
    by (simp add: nb tr lv backup_before_wipe_def restore_fields) (simp add: run)
qed

end
